theory Spec2Isabelle
  imports Complex_Main
begin

section \<open>Tensors and arithmetic\<close>

text \<open>
  The program computes on float32 tensors. Here a tensor element is a real number and
  every operation is exact: rounding, overflow, infinities and NaN are outside the model,
  and so is the base \<open>embed_size \<le> 0\<close> of the positional encoder (where the
  float power is 1, infinite or NaN). The one exception is the schedule of the
  constructor, which is modelled a second time with the rounding of the format
  (\<open>init_model_rounded\<close>). Shape errors of the tensor library are outside
  the model too: the theorems state the shapes they need.

  A tensor of any rank is its shape and its elements in row-major order; the tensors of
  the layers and of the model, whose ranks are fixed, are nested lists
  (\<open>[B, N, A, 3]\<close> is a list of \<open>B\<close> lists of \<open>N\<close> lists of \<open>A\<close>
  vectors).
\<close>

record tensor =
  shape :: "nat list"
  data :: "real list"

type_synonym vec = "real list"
type_synonym coords = "real list list list list"
type_synonym mask = "real list list list"
type_synonym features = "real list list list"

datatype error = IndexError

section \<open>model.py: sinusoidal positional encoding\<close>

text \<open>
  \<open>inv_freq = 1.0 / (embed_size ** (2 * arange(embed_dim // 2) / embed_dim))\<close>.
\<close>

definition inv_freq :: "nat \<Rightarrow> real \<Rightarrow> real list" where
  "inv_freq embed_dim embed_size =
     map (\<lambda>i. 1 / (embed_size powr (2 * real i / real embed_dim))) [0..<embed_dim div 2]"

text \<open>
  The last axis of the encoding of one element \<open>x\<close>:
  \<open>angles = x * pi * inv_freq\<close>, then the sines followed by the cosines.
\<close>

definition pos_embedding :: "nat \<Rightarrow> real \<Rightarrow> real \<Rightarrow> vec" where
  "pos_embedding embed_dim embed_size x =
     (let angles = map (\<lambda>f. x * pi * f) (inv_freq embed_dim embed_size)
      in map sin angles @ map cos angles)"

text \<open>
  On a tensor of any shape: one new last axis, of the width of the concatenation.
\<close>

definition sinusoidal_positional_encoding :: "tensor \<Rightarrow> nat \<Rightarrow> real \<Rightarrow> tensor" where
  "sinusoidal_positional_encoding x embed_dim embed_size =
     \<lparr>shape = shape x @ [embed_dim div 2 + embed_dim div 2],
      data = concat (map (pos_embedding embed_dim embed_size) (data x))\<rparr>"

text \<open>The slice of the last axis at the element of row-major position \<open>p\<close>.\<close>

definition last_axis :: "tensor \<Rightarrow> nat \<Rightarrow> vec" where
  "last_axis t p = (let w = last (shape t) in take w (drop (p * w) (data t)))"

section \<open>model.py: the noise schedule\<close>

text \<open>
  \<open>torch.linspace(start, stop, steps)\<close>: \<open>steps\<close> evenly spaced values, the
  single value \<open>start\<close> when \<open>steps = 1\<close>.
\<close>

definition linspace :: "real \<Rightarrow> real \<Rightarrow> nat \<Rightarrow> real list" where
  "linspace start stop steps =
     (if steps = 1 then [start]
      else map (\<lambda>i. start + real i * ((stop - start) / real (steps - 1))) [0..<steps])"

fun cumprod_from :: "real \<Rightarrow> real list \<Rightarrow> real list" where
  "cumprod_from acc [] = []"
| "cumprod_from acc (x # xs) = (acc * x) # cumprod_from (acc * x) xs"

definition cumprod :: "real list \<Rightarrow> real list" where
  "cumprod xs = cumprod_from 1 xs"

section \<open>model.py: EGNNLayer\<close>

record linear =
  weight :: "real list list"
  bias :: "real list"

definition dot :: "vec \<Rightarrow> vec \<Rightarrow> real" where
  "dot xs ys = sum_list (map2 (*) xs ys)"

text \<open>\<open>nn.Linear\<close>: one output per row of the weight matrix.\<close>

definition linear_apply :: "linear \<Rightarrow> vec \<Rightarrow> vec" where
  "linear_apply l x = map2 (\<lambda>row b. dot row x + b) (weight l) (bias l)"

definition silu :: "real \<Rightarrow> real" where
  "silu x = x / (1 + exp (- x))"

text \<open>\<open>nn.LayerNorm\<close> over the feature axis, with its default \<open>eps = 1e-5\<close>.\<close>

definition layer_norm :: "vec \<Rightarrow> vec \<Rightarrow> vec \<Rightarrow> vec" where
  "layer_norm g b x =
     (let n = real (length x);
          mu = sum_list x / n;
          var = sum_list (map (\<lambda>v. (v - mu)\<^sup>2) x) / n
      in map2 (\<lambda>(gi, bi) v. (v - mu) / sqrt (var + 1 / 100000) * gi + bi) (zip g b) x)"

record egnn_layer =
  edge_embed_dim :: nat
  max_len :: nat
  edge_mlp_0 :: linear
  edge_mlp_2 :: linear
  node_mlp_0 :: linear
  node_mlp_2 :: linear
  node_norm_weight :: vec
  node_norm_bias :: vec
  coord_mlp_0 :: linear
  coord_mlp_2 :: linear

definition edge_mlp :: "egnn_layer \<Rightarrow> vec \<Rightarrow> vec" where
  "edge_mlp L x =
     map silu (linear_apply (edge_mlp_2 L) (map silu (linear_apply (edge_mlp_0 L) x)))"

definition node_mlp :: "egnn_layer \<Rightarrow> vec \<Rightarrow> vec" where
  "node_mlp L x = linear_apply (node_mlp_2 L) (map silu (linear_apply (node_mlp_0 L) x))"

definition node_norm :: "egnn_layer \<Rightarrow> vec \<Rightarrow> vec" where
  "node_norm L x = layer_norm (node_norm_weight L) (node_norm_bias L) x"

definition coord_mlp :: "egnn_layer \<Rightarrow> vec \<Rightarrow> vec" where
  "coord_mlp L x = linear_apply (coord_mlp_2 L) (map silu (linear_apply (coord_mlp_0 L) x))"

definition vadd :: "vec \<Rightarrow> vec \<Rightarrow> vec" where
  "vadd = map2 (+)"

definition vsub :: "vec \<Rightarrow> vec \<Rightarrow> vec" where
  "vsub = map2 (-)"

definition vscale :: "real \<Rightarrow> vec \<Rightarrow> vec" where
  "vscale c v = map (\<lambda>x. c * x) v"

text \<open>The sum of a list of vectors of width \<open>w\<close> (\<open>sum(dim)\<close> over that list).\<close>

definition vsum :: "nat \<Rightarrow> vec list \<Rightarrow> vec" where
  "vsum w vs = foldr vadd vs (replicate w 0)"

text \<open>
  \<open>mean(dim)\<close> over a list of coordinate vectors (of no vector it is NaN in the
  program, outside the model).
\<close>

definition vmean :: "vec list \<Rightarrow> vec" where
  "vmean vs = map (\<lambda>x. x / real (length vs)) (vsum 3 vs)"

text \<open>
  A tensor whose last axis has width 1 times a vector: the factor is broadcast.
\<close>

definition bmul :: "vec \<Rightarrow> vec \<Rightarrow> vec" where
  "bmul g d = (case g of [s] \<Rightarrow> vscale s d | _ \<Rightarrow> map2 (*) g d)"

text \<open>
  One element of the batch; \<open>c\<close> is \<open>[N, A, 3]\<close>, \<open>h\<close> is \<open>[N, F]\<close>,
  \<open>m\<close> is \<open>[N, A]\<close> and \<open>r\<close> is \<open>[N]\<close>.
  \<open>directional_vectors[i][j]\<close> is the mean over the atoms of
  \<open>coords[i][a] - coords[j][a]\<close>.
\<close>

definition directional_vectors :: "vec list list \<Rightarrow> vec list list" where
  "directional_vectors c = map (\<lambda>ci. map (\<lambda>cj. vmean (map2 vsub ci cj)) c) c"

definition rel_residue_enc :: "egnn_layer \<Rightarrow> int list \<Rightarrow> vec list list" where
  "rel_residue_enc L r =
     map (\<lambda>ri. map (\<lambda>rj. pos_embedding (edge_embed_dim L) (real (max_len L))
                            (real_of_int (ri - rj))) r) r"

definition edge_messages :: "egnn_layer \<Rightarrow> vec list list \<Rightarrow> vec list \<Rightarrow> int list \<Rightarrow> vec list list" where
  "edge_messages L c h r =
     map2 (\<lambda>hi (ei, di).
        map2 (\<lambda>hj (eij, dij). edge_mlp L (hi @ hj @ eij @ dij)) h (zip ei di))
       h (zip (rel_residue_enc L r) (directional_vectors c))"

definition coord_updates :: "egnn_layer \<Rightarrow> vec list list \<Rightarrow> vec list \<Rightarrow> int list \<Rightarrow> vec list" where
  "coord_updates L c h r =
     map2 (\<lambda>mi di. vsum 3 (map2 (\<lambda>mij dij. bmul (coord_mlp L mij) dij) mi di))
       (edge_messages L c h r) (directional_vectors c)"

definition updated_node_features :: "egnn_layer \<Rightarrow> vec list list \<Rightarrow> vec list \<Rightarrow> int list \<Rightarrow> vec list" where
  "updated_node_features L c h r =
     map2 (\<lambda>hi mi. node_norm L (node_mlp L (hi @ vsum (length (bias (edge_mlp_2 L))) mi)))
       h (edge_messages L c h r)"

definition updated_coords :: "vec list list \<Rightarrow> vec list \<Rightarrow> real list list \<Rightarrow> vec list list" where
  "updated_coords c u m =
     map2 (\<lambda>(ci, ui) mi. map2 (\<lambda>cia mia. vadd cia (vscale mia ui)) ci mi) (zip c u) m"

definition egnn_forward1 ::
  "egnn_layer \<Rightarrow> vec list list \<Rightarrow> vec list \<Rightarrow> real list list \<Rightarrow> int list
    \<Rightarrow> vec list list \<times> vec list" where
  "egnn_forward1 L c h m r =
     (updated_coords c (coord_updates L c h r) m, updated_node_features L c h r)"

text \<open>The batch: every element of the batch goes through the layer on its own.\<close>

definition egnn_forward ::
  "egnn_layer \<Rightarrow> coords \<Rightarrow> features \<Rightarrow> mask \<Rightarrow> int list list \<Rightarrow> coords \<times> features" where
  "egnn_forward L cs hs ms rs =
     (let outs = map (\<lambda>(c, h, m, r). egnn_forward1 L c h m r) (zip cs (zip hs (zip ms rs)))
      in (map fst outs, map snd outs))"

section \<open>model.py: ProteinDiffusionModel\<close>

record protein_diffusion_model =
  max_residues :: nat
  num_atoms :: nat
  diffusion_steps :: nat
  pos_embed_size :: nat
  hidden_size :: nat
  model_edge_embed_dim :: nat
  betas :: "real list"
  alphas :: "real list"
  alpha_cumprod :: "real list"
  alpha_cumprod_prev :: "real list"
  egnn_layers :: "egnn_layer list"

text \<open>
  The constructor. The layers it instantiates (their weights are drawn at random, then
  trained) are the argument \<open>layers\<close>.
\<close>

definition init_model ::
  "nat \<Rightarrow> nat \<Rightarrow> nat \<Rightarrow> nat \<Rightarrow> nat \<Rightarrow> egnn_layer list \<Rightarrow> nat \<Rightarrow> real \<Rightarrow> real
    \<Rightarrow> protein_diffusion_model" where
  "init_model max_res steps pos_size hidden edge_dim layers atoms beta_start beta_end =
     (let bs = linspace beta_start beta_end steps;
          as = map (\<lambda>b. 1 - b) bs;
          ac = cumprod as
      in \<lparr>max_residues = max_res, num_atoms = atoms, diffusion_steps = steps,
          pos_embed_size = pos_size, hidden_size = hidden, model_edge_embed_dim = edge_dim,
          betas = bs, alphas = as, alpha_cumprod = ac,
          alpha_cumprod_prev = [1] @ butlast ac, egnn_layers = layers\<rparr>)"

text \<open>\<open>.long()\<close> of a float: truncation towards zero.\<close>

definition to_long :: "real \<Rightarrow> int" where
  "to_long x = (if 0 \<le> x then \<lfloor>x\<rfloor> else \<lceil>x\<rceil>)"

text \<open>
  Indexing a one-dimensional tensor by an integer: a negative index counts from the end,
  an index outside \<open>[-n, n)\<close> raises.
\<close>

definition tensor_index :: "real list \<Rightarrow> int \<Rightarrow> error + real" where
  "tensor_index xs i =
     (let n = int (length xs)
      in if 0 \<le> i \<and> i < n then Inr (xs ! nat i)
         else if - n \<le> i \<and> i < 0 then Inr (xs ! nat (i + n))
         else Inl IndexError)"

fun index_select :: "real list \<Rightarrow> int list \<Rightarrow> error + real list" where
  "index_select xs [] = Inr []"
| "index_select xs (i # is) =
     (case tensor_index xs i of
        Inl e \<Rightarrow> Inl e
      | Inr v \<Rightarrow> (case index_select xs is of Inl e \<Rightarrow> Inl e | Inr vs \<Rightarrow> Inr (v # vs)))"

text \<open>The layers, one after the other, on the coordinates and the node features.\<close>

definition egnn_stack ::
  "egnn_layer list \<Rightarrow> coords \<Rightarrow> features \<Rightarrow> mask \<Rightarrow> int list list \<Rightarrow> coords \<times> features" where
  "egnn_stack layers cs hs ms rs =
     fold (\<lambda>layer (c, h). egnn_forward layer c h ms rs) layers (cs, hs)"

text \<open>
  \<open>(coords - sqrt(cum_a_t) * curr_coords) / sqrt(1 - cum_a_t)\<close>, with \<open>cum_a_t\<close>
  of shape \<open>[B, 1, 1, 1]\<close>, then the product with the mask.
\<close>

definition predicted_noise_elem :: "real \<Rightarrow> real \<Rightarrow> real \<Rightarrow> real" where
  "predicted_noise_elem a x y = (x - sqrt a * y) / sqrt (1 - a)"

definition ddpm_noise :: "real list \<Rightarrow> coords \<Rightarrow> coords \<Rightarrow> coords" where
  "ddpm_noise cum_a_t cs fs =
     map2 (\<lambda>a (cb, fb). map2 (map2 (map2 (predicted_noise_elem a))) cb fb) cum_a_t (zip cs fs)"

definition apply_mask :: "coords \<Rightarrow> mask \<Rightarrow> coords" where
  "apply_mask cs ms = map2 (map2 (map2 (\<lambda>v m. map (\<lambda>x. x * m) v))) cs ms"

text \<open>
  \<open>times.float() / self.diffusion_steps\<close>.
\<close>

definition normalized_times :: "protein_diffusion_model \<Rightarrow> int list \<Rightarrow> real list" where
  "normalized_times m timesteps = map (\<lambda>t. real_of_int t / real (diffusion_steps m)) timesteps"

text \<open>
  The residue embedding \<open>[B, N, hidden]\<close> plus the time embedding \<open>[B, hidden]\<close>,
  expanded over the residues.
\<close>

definition residue_embedding :: "protein_diffusion_model \<Rightarrow> int list list \<Rightarrow> features" where
  "residue_embedding m residue_indices =
     map (map (\<lambda>r. pos_embedding (hidden_size m) (real (max_residues m)) (real_of_int r)))
       residue_indices"

definition time_embedding :: "protein_diffusion_model \<Rightarrow> real list \<Rightarrow> real list list" where
  "time_embedding m times_f = map (pos_embedding (hidden_size m) 10000) times_f"

definition initial_node_features ::
  "protein_diffusion_model \<Rightarrow> int list list \<Rightarrow> real list \<Rightarrow> features" where
  "initial_node_features m residue_indices times_f =
     map2 (\<lambda>re te. map (\<lambda>e. vadd e te) re)
       (residue_embedding m residue_indices) (time_embedding m times_f)"

text \<open>
  The forward pass. The argument \<open>times\<close> of the source is \<open>timesteps\<close> here
  (\<open>times\<close> is a constant of HOL); line 127 of the source rebinds the name to the
  normalised times, \<open>times_f\<close> here, and line 142 indexes the schedule with
  \<open>times.long()\<close>, that is with \<open>map to_long times_f\<close>.
\<close>

definition forward ::
  "protein_diffusion_model \<Rightarrow> coords \<Rightarrow> int list list \<Rightarrow> int list \<Rightarrow> mask \<Rightarrow> error + coords" where
  "forward m cs residue_indices timesteps atom_mask =
     (let times_f = normalized_times m timesteps;
          node_features = initial_node_features m residue_indices times_f;
          curr_coords = fst (egnn_stack (egnn_layers m) cs node_features atom_mask residue_indices)
      in case index_select (alpha_cumprod m) (map to_long times_f) of
           Inl e \<Rightarrow> Inl e
         | Inr cum_a_t \<Rightarrow> Inr (apply_mask (ddpm_noise cum_a_t cs curr_coords) atom_mask))"

text \<open>
  The indices that line 142 looks up in the schedule, \<open>times.long()\<close>, one for
  every element of the batch.
\<close>

definition schedule_indices :: "protein_diffusion_model \<Rightarrow> int list \<Rightarrow> int list" where
  "schedule_indices m timesteps = map to_long (normalized_times m timesteps)"

section \<open>model.py: the schedule in floating point\<close>





text \<open>
  The constructor with the rounding \<open>rnd\<close> of the format: \<open>torch.linspace\<close>
  gives the evenly spaced values, rounded; \<open>1.0 - self.betas\<close> and every product of
  \<open>torch.cumprod\<close> are rounded. With the identity for \<open>rnd\<close> this is
  \<open>init_model\<close> (\<open>init_model_rounded_exact\<close>).
\<close>

definition linspace_rounded :: "(real \<Rightarrow> real) \<Rightarrow> real \<Rightarrow> real \<Rightarrow> nat \<Rightarrow> real list" where
  "linspace_rounded rnd start stop steps = map rnd (linspace start stop steps)"

fun cumprod_from_rounded :: "(real \<Rightarrow> real) \<Rightarrow> real \<Rightarrow> real list \<Rightarrow> real list" where
  "cumprod_from_rounded rnd acc [] = []"
| "cumprod_from_rounded rnd acc (x # xs) = rnd (acc * x) # cumprod_from_rounded rnd (rnd (acc * x)) xs"

definition cumprod_rounded :: "(real \<Rightarrow> real) \<Rightarrow> real list \<Rightarrow> real list" where
  "cumprod_rounded rnd xs = cumprod_from_rounded rnd 1 xs"

definition init_model_rounded ::
  "(real \<Rightarrow> real) \<Rightarrow> nat \<Rightarrow> nat \<Rightarrow> nat \<Rightarrow> nat \<Rightarrow> nat \<Rightarrow> egnn_layer list \<Rightarrow> nat \<Rightarrow> real \<Rightarrow> real
    \<Rightarrow> protein_diffusion_model" where
  "init_model_rounded rnd max_res steps pos_size hidden edge_dim layers atoms beta_start beta_end =
     (let bs = linspace_rounded rnd beta_start beta_end steps;
          as = map (\<lambda>b. rnd (1 - b)) bs;
          ac = cumprod_rounded rnd as
      in \<lparr>max_residues = max_res, num_atoms = atoms, diffusion_steps = steps,
          pos_embed_size = pos_size, hidden_size = hidden, model_edge_embed_dim = edge_dim,
          betas = bs, alphas = as, alpha_cumprod = ac,
          alpha_cumprod_prev = [1] @ butlast ac, egnn_layers = layers\<rparr>)"

section \<open>train.py: forward noising\<close>

text \<open>
  \<open>sqrt(alpha_cumprod) * coords + sqrt(1 - alpha_cumprod) * noise\<close> with
  \<open>alpha_cumprod = model.alpha_cumprod[t]\<close>.
\<close>

definition noisy_elem :: "real \<Rightarrow> real \<Rightarrow> real \<Rightarrow> real" where
  "noisy_elem a x e = sqrt a * x + sqrt (1 - a) * e"

definition noisy_coords :: "protein_diffusion_model \<Rightarrow> int list \<Rightarrow> coords \<Rightarrow> coords \<Rightarrow> error + coords" where
  "noisy_coords m t cs noise =
     (case index_select (alpha_cumprod m) t of
        Inl e \<Rightarrow> Inl e
      | Inr ac \<Rightarrow> Inr (map2 (\<lambda>a (cb, nb). map2 (map2 (map2 (noisy_elem a))) cb nb) ac (zip cs noise)))"

section \<open>sample.py: the re-masking line of the sampling loop\<close>

text \<open>
  \<open>coords = coords * atom_mask.unsqueeze(-1) + (1 - atom_mask.unsqueeze(-1)) * coords\<close>.
\<close>

definition remask :: "coords \<Rightarrow> mask \<Rightarrow> coords" where
  "remask cs ms = map2 (map2 (map2 (\<lambda>v m. map (\<lambda>x. x * m + (1 - m) * x) v))) cs ms"

section \<open>model.py: the tensors that a forward pass binds, creates and writes\<close>

text \<open>
  Python passes tensors by reference, so a call can write the tensors of its caller and
  the schedule of the model. A tensor is a reference into a heap that records, for each
  tensor, how many in-place writes its storage has received; a tensor is unchanged,
  element for element, as long as this count is. An environment binds the names of the
  program to references.

  An expression is a name, the result of an operation that returns a new tensor
  (arithmetic, \<open>torch.sqrt\<close>, \<open>torch.sin\<close>, \<open>torch.cat\<close>, \<open>.clone()\<close>,
  \<open>.mean()\<close>, \<open>.sum()\<close>, indexing by a tensor, the call of an \<open>nn.Sequential\<close>
  of \<open>nn.Linear\<close> and \<open>nn.SiLU()\<close> or of an \<open>nn.LayerNorm\<close>), or a view
  (\<open>unsqueeze\<close>, \<open>expand\<close>, indexing by slices and \<open>None\<close>), which is the
  storage of its base. The strings name the operations of the source; Python numbers are
  no tensors and are left out of the operands. A statement binds a name to the tensor of
  an expression, or writes a tensor in place (\<open>x += e\<close>, \<open>x.add_(e)\<close>,
  \<open>x[i] = e\<close>).
\<close>

type_synonym ref = nat

record tensor_store =
  env :: "string \<Rightarrow> ref option"
  heap :: "ref \<Rightarrow> nat option"
  next_ref :: ref

datatype expr =
    Var string
  | New string "expr list"
  | View string expr

datatype stmt =
    Assign string expr
  | InPlace expr string "expr list"

definition alloc :: "tensor_store \<Rightarrow> ref \<times> tensor_store" where
  "alloc s = (next_ref s, s\<lparr>heap := (heap s)(next_ref s \<mapsto> 0), next_ref := Suc (next_ref s)\<rparr>)"

fun eval :: "expr \<Rightarrow> tensor_store \<Rightarrow> (ref \<times> tensor_store) option"
  and eval_list :: "expr list \<Rightarrow> tensor_store \<Rightarrow> tensor_store option" where
  "eval (Var x) s = (case env s x of None \<Rightarrow> None | Some r \<Rightarrow> Some (r, s))"
| "eval (New f es) s = (case eval_list es s of None \<Rightarrow> None | Some s' \<Rightarrow> Some (alloc s'))"
| "eval (View f e) s = eval e s"
| "eval_list [] s = Some s"
| "eval_list (e # es) s = (case eval e s of None \<Rightarrow> None | Some (r, s') \<Rightarrow> eval_list es s')"

definition write_in_place :: "ref \<Rightarrow> tensor_store \<Rightarrow> tensor_store option" where
  "write_in_place r s = (case heap s r of None \<Rightarrow> None | Some w \<Rightarrow> Some (s\<lparr>heap := (heap s)(r \<mapsto> Suc w)\<rparr>))"

fun exec :: "stmt \<Rightarrow> tensor_store \<Rightarrow> tensor_store option" where
  "exec (Assign x e) s =
     (case eval e s of None \<Rightarrow> None | Some (r, s') \<Rightarrow> Some (s'\<lparr>env := (env s')(x \<mapsto> r)\<rparr>))"
| "exec (InPlace t f es) s =
     (case eval_list es s of None \<Rightarrow> None
      | Some s' \<Rightarrow> (case eval t s' of None \<Rightarrow> None | Some (r, s'') \<Rightarrow> write_in_place r s''))"

fun run :: "stmt list \<Rightarrow> tensor_store \<Rightarrow> tensor_store option" where
  "run [] s = Some s"
| "run (c # p) s = (case exec c s of None \<Rightarrow> None | Some s' \<Rightarrow> run p s')"

text \<open>
  \<open>.float()\<close>, \<open>.long()\<close> and \<open>.to(device)\<close> return the tensor itself when it
  has the dtype and the device already, a new tensor otherwise.
\<close>

definition conv :: "bool \<Rightarrow> string \<Rightarrow> expr \<Rightarrow> expr" where
  "conv same f e = (if same then e else New f [e])"

text \<open>
  A call \<open>result = sinusoidal_positional_encoding(x, ...)\<close>: the parameter is bound to
  the tensor of the argument, the body runs on the names of the function (here with the
  prefix \<open>enc.\<close>), and the caller binds the tensor that is returned.
  \<open>same_device\<close>: \<open>torch.arange\<close> creates its tensor on the device of \<open>x\<close>.
\<close>

definition sinusoidal_call :: "bool \<Rightarrow> string \<Rightarrow> expr \<Rightarrow> stmt list" where
  "sinusoidal_call same_device result x =
     [Assign ''enc.x'' x,
      Assign ''enc.inv_freq''
        (New ''rdiv'' [New ''rpow'' [New ''div'' [New ''mul'' [New ''arange'' []]]]]),
      Assign ''enc.inv_freq'' (conv same_device ''to'' (Var ''enc.inv_freq'')),
      Assign ''enc.angles''
        (New ''mul'' [New ''mul'' [View ''[..., None]'' (Var ''enc.x'')], Var ''enc.inv_freq'']),
      Assign ''enc.pos_embedding_sin'' (New ''sin'' [Var ''enc.angles'']),
      Assign ''enc.pos_embedding_cos'' (New ''cos'' [Var ''enc.angles'']),
      Assign ''enc.pos_embedding''
        (New ''cat'' [Var ''enc.pos_embedding_sin'', Var ''enc.pos_embedding_cos'']),
      Assign result (Var ''enc.pos_embedding'')]"

text \<open>
  One turn of the loop of lines 138 and 139,
  \<open>curr_coords, node_features = layer(curr_coords, node_features, atom_mask, residue_indices)\<close>,
  with the body of \<open>EGNNLayer.forward\<close> (lines 204 to 244) on the names of the layer
  (the prefix \<open>layer.\<close>): its parameters are bound to the tensors of the arguments, and
  the two tensors that it returns are bound by the caller. The unpacking of
  \<open>coords.shape\<close> binds numbers, no tensor, and is left out, here and in the model.
\<close>

definition layer_call :: "bool \<Rightarrow> stmt list" where
  "layer_call same_device =
     [Assign ''layer.coords'' (Var ''curr_coords''),
      Assign ''layer.node_features'' (Var ''node_features''),
      Assign ''layer.atom_mask'' (Var ''atom_mask''),
      Assign ''layer.residue_indices'' (Var ''residue_indices''),
      Assign ''layer.rel_residue_indices''
        (New ''sub'' [View ''[:, :, None]'' (Var ''layer.residue_indices''),
                      View ''[:, None, :]'' (Var ''layer.residue_indices'')])]
     @ sinusoidal_call same_device ''layer.rel_residue_enc'' (Var ''layer.rel_residue_indices'')
     @ [Assign ''layer.directional_vectors''
          (New ''sub'' [View ''[:, :, None, :, :]'' (Var ''layer.coords''),
                        View ''[:, None, :, :, :]'' (Var ''layer.coords'')]),
        Assign ''layer.directional_vectors'' (New ''mean'' [Var ''layer.directional_vectors'']),
        Assign ''layer.edge_features''
          (New ''cat''
             [View ''expand'' (View ''[:, :, None, :]'' (Var ''layer.node_features'')),
              View ''expand'' (View ''[:, None, :, :]'' (Var ''layer.node_features'')),
              Var ''layer.rel_residue_enc'',
              Var ''layer.directional_vectors'']),
        Assign ''layer.edge_messages'' (New ''edge_mlp'' [Var ''layer.edge_features'']),
        Assign ''layer.aggregated_messages'' (New ''sum'' [Var ''layer.edge_messages'']),
        Assign ''layer.updated_node_features''
          (New ''node_mlp''
             [New ''cat'' [Var ''layer.node_features'', Var ''layer.aggregated_messages'']]),
        Assign ''layer.updated_node_features''
          (New ''node_norm'' [Var ''layer.updated_node_features'']),
        Assign ''layer.coord_updates'' (New ''coord_mlp'' [Var ''layer.edge_messages'']),
        Assign ''layer.coord_updates''
          (New ''mul'' [Var ''layer.coord_updates'', Var ''layer.directional_vectors'']),
        Assign ''layer.coord_updates'' (New ''sum'' [Var ''layer.coord_updates'']),
        Assign ''layer.updated_coords''
          (New ''add''
             [Var ''layer.coords'',
              New ''mul'' [View ''unsqueeze'' (Var ''layer.coord_updates''),
                           View ''unsqueeze'' (Var ''layer.atom_mask'')]]),
        Assign ''curr_coords'' (Var ''layer.updated_coords''),
        Assign ''node_features'' (Var ''layer.updated_node_features'')]"

text \<open>
  \<open>ProteinDiffusionModel.forward\<close>: the statements before the loop (lines 119 to
  135), the loop over \<open>num_layers\<close> layers, and the statements after it (lines 142 to
  145). \<open>residues_float\<close> and \<open>times_float\<close>: the caller's
  \<open>residue_indices\<close> and \<open>times\<close> are float tensors already. The names of the
  caller's tensors are the parameters and the attributes of \<open>self\<close>.
\<close>

definition forward_head :: "bool \<Rightarrow> bool \<Rightarrow> bool \<Rightarrow> stmt list" where
  "forward_head residues_float times_float same_device =
     sinusoidal_call same_device ''residue_embedding''
       (conv residues_float ''float'' (Var ''residue_indices''))
     @ [Assign ''times'' (New ''div'' [conv times_float ''float'' (Var ''times'')])]
     @ sinusoidal_call same_device ''time_embedding'' (Var ''times'')
     @ [Assign ''time_embedding'' (View ''expand'' (View ''unsqueeze'' (Var ''time_embedding''))),
        Assign ''node_features'' (New ''add'' [Var ''residue_embedding'', Var ''time_embedding'']),
        Assign ''curr_coords'' (New ''clone'' [Var ''coords''])]"

definition forward_tail :: "stmt list" where
  "forward_tail =
     [Assign ''cum_a_t''
        (View ''unsqueeze'' (View ''unsqueeze'' (View ''unsqueeze''
           (New ''index'' [Var ''self.alpha_cumprod'', New ''long'' [Var ''times'']])))),
      Assign ''predicted_noise''
        (New ''div''
           [New ''sub'' [Var ''coords'',
                         New ''mul'' [New ''sqrt'' [Var ''cum_a_t''], Var ''curr_coords'']],
            New ''sqrt'' [New ''rsub'' [Var ''cum_a_t'']]]),
      Assign ''return'' (New ''mul'' [Var ''predicted_noise'', View ''unsqueeze'' (Var ''atom_mask'')])]"

definition forward_body :: "bool \<Rightarrow> bool \<Rightarrow> bool \<Rightarrow> nat \<Rightarrow> stmt list" where
  "forward_body residues_float times_float same_device num_layers =
     forward_head residues_float times_float same_device
     @ concat (replicate num_layers (layer_call same_device))
     @ forward_tail"

definition caller_names :: "string list" where
  "caller_names = [''coords'', ''residue_indices'', ''times'', ''atom_mask'',
     ''self.betas'', ''self.alphas'', ''self.alpha_cumprod'', ''self.alpha_cumprod_prev'']"

text \<open>
  Three checks on a list of statements: every name is bound before it is used
  (\<open>uses_ok\<close>), no statement writes in place (\<open>is_assign\<close>), and the names that
  are bound to tensors created by the statements themselves (\<open>made_after\<close>).
\<close>

fun names :: "expr \<Rightarrow> string set" and names_list :: "expr list \<Rightarrow> string set" where
  "names (Var x) = {x}"
| "names (New f es) = names_list es"
| "names (View f e) = names e"
| "names_list [] = {}"
| "names_list (e # es) = names e \<union> names_list es"

fun uses_ok :: "string set \<Rightarrow> stmt list \<Rightarrow> bool" where
  "uses_ok D [] = True"
| "uses_ok D (Assign x e # p) = (names e \<subseteq> D \<and> uses_ok (insert x D) p)"
| "uses_ok D (InPlace t f es # p) = (names t \<subseteq> D \<and> names_list es \<subseteq> D \<and> uses_ok D p)"

fun is_assign :: "stmt \<Rightarrow> bool" where
  "is_assign (Assign x e) = True"
| "is_assign (InPlace t f es) = False"

fun defs :: "stmt list \<Rightarrow> string set" where
  "defs [] = {}"
| "defs (Assign x e # p) = insert x (defs p)"
| "defs (InPlace t f es # p) = defs p"

fun made :: "string set \<Rightarrow> expr \<Rightarrow> bool" where
  "made F (Var x) = (x \<in> F)"
| "made F (New f es) = True"
| "made F (View f e) = made F e"

fun made_after :: "string set \<Rightarrow> stmt list \<Rightarrow> string set" where
  "made_after F [] = F"
| "made_after F (Assign x e # p) = made_after (if made F e then insert x F else F - {x}) p"
| "made_after F (InPlace t f es # p) = made_after F p"

definition head_names :: "string set" where
  "head_names = set caller_names \<union>
     {''enc.x'', ''enc.inv_freq'', ''enc.angles'', ''enc.pos_embedding_sin'',
      ''enc.pos_embedding_cos'', ''enc.pos_embedding'', ''residue_embedding'',
      ''time_embedding'', ''node_features'', ''curr_coords''}"

section \<open>Shapes\<close>

text \<open>
  The mask has one entry for every atom slot of the coordinates
  (\<open>[B, N, A]\<close> against \<open>[B, N, A, 3]\<close>).
\<close>

definition mask_fits :: "coords \<Rightarrow> mask \<Rightarrow> bool" where
  "mask_fits cs ms = list_all2 (list_all2 (\<lambda>cn mn. length cn = length mn)) cs ms"

text \<open>
  The shapes of the docstrings: coordinates \<open>[B, N, A, 3]\<close>, a mask
  \<open>[B, N, A]\<close>, residue indices and node features \<open>[B, N]\<close> and
  \<open>[B, N, F]\<close> (the feature width plays no part in the coordinates).
\<close>

definition residues_shape :: "nat \<Rightarrow> nat \<Rightarrow> vec list list \<Rightarrow> bool" where
  "residues_shape N A c \<longleftrightarrow>
     length c = N \<and> list_all (\<lambda>cn. length cn = A \<and> list_all (\<lambda>v. length v = 3) cn) c"

definition coords_shape :: "nat \<Rightarrow> nat \<Rightarrow> nat \<Rightarrow> coords \<Rightarrow> bool" where
  "coords_shape B N A cs \<longleftrightarrow> length cs = B \<and> list_all (residues_shape N A) cs"

definition rows_shape :: "nat \<Rightarrow> nat \<Rightarrow> 'a list list \<Rightarrow> bool" where
  "rows_shape B N xs \<longleftrightarrow> length xs = B \<and> list_all (\<lambda>x. length x = N) xs"

definition mask_shape :: "nat \<Rightarrow> nat \<Rightarrow> nat \<Rightarrow> mask \<Rightarrow> bool" where
  "mask_shape B N A ms \<longleftrightarrow> length ms = B \<and> list_all (rows_shape N A) ms"

text \<open>
  The coordinate gate of a layer is \<open>nn.Linear(hidden_nf, 1)\<close>: one row, one bias.
\<close>

definition scalar_gate :: "egnn_layer \<Rightarrow> bool" where
  "scalar_gate L \<longleftrightarrow> length (weight (coord_mlp_2 L)) = 1 \<and> length (bias (coord_mlp_2 L)) = 1"

section \<open>Rotations\<close>

text \<open>A \<open>3 \<times> 3\<close> matrix, as its rows, applied to every coordinate vector.\<close>

definition mat_vec :: "real list list \<Rightarrow> vec \<Rightarrow> vec" where
  "mat_vec R v = map (\<lambda>row. dot row v) R"

definition rotate_coords :: "real list list \<Rightarrow> coords \<Rightarrow> coords" where
  "rotate_coords R cs = map (map (map (mat_vec R))) cs"

definition translate_coords :: "vec \<Rightarrow> coords \<Rightarrow> coords" where
  "translate_coords t cs = map (map (map (\<lambda>v. vadd v t))) cs"

text \<open>The rotation by a quarter turn about the third axis.\<close>

definition quarter_turn :: "real list list" where
  "quarter_turn = [[0, - 1, 0], [1, 0, 0], [0, 0, 1]]"

section \<open>Concrete inputs\<close>

text \<open>
  A model of two diffusion steps and no layer, built by the constructor from
  \<open>beta_start = 9/25\<close> and \<open>beta_end = 7/16\<close>: its \<open>alpha_cumprod\<close> is
  \<open>[16/25, 9/25]\<close>, whose square roots are rational.
\<close>

definition two_step_model :: protein_diffusion_model where
  "two_step_model = init_model 2 2 2 2 2 [] 1 (9 / 25) (7 / 16)"

text \<open>
  A store at the entry of a call: the four arguments at the references 0 to 3 and the
  four tensors of the schedule at the references 4 to 7, none written so far.
\<close>

definition example_store :: tensor_store where
  "example_store =
     \<lparr>env = [''coords'' \<mapsto> 0, ''residue_indices'' \<mapsto> 1, ''times'' \<mapsto> 2, ''atom_mask'' \<mapsto> 3,
             ''self.betas'' \<mapsto> 4, ''self.alphas'' \<mapsto> 5, ''self.alpha_cumprod'' \<mapsto> 6,
             ''self.alpha_cumprod_prev'' \<mapsto> 7],
      heap = (\<lambda>r. if r < 8 then Some 0 else None),
      next_ref = 8\<rparr>"

text \<open>
  A layer \<open>EGNNLayer(input_nf=2, hidden_nf=2, output_nf=2, edge_embed_dim=2, max_len=2)\<close>,
  as the constructor of a model of hidden size 2 builds it. Its edge network reads the
  first component of the directional vector (the edge feature is
  \<open>[h_i (2), h_j (2), sin, cos, d_x, d_y, d_z]\<close>); its other weights are 0 or 1.
\<close>

definition x_gate_layer :: egnn_layer where
  "x_gate_layer =
     \<lparr>edge_embed_dim = 2, max_len = 2,
      edge_mlp_0 = \<lparr>weight = [[0, 0, 0, 0, 0, 0, 1, 0, 0], [0, 0, 0, 0, 0, 0, 0, 0, 0]],
                    bias = [0, 0]\<rparr>,
      edge_mlp_2 = \<lparr>weight = [[1, 0], [0, 0]], bias = [0, 0]\<rparr>,
      node_mlp_0 = \<lparr>weight = [[0, 0, 0, 0], [0, 0, 0, 0]], bias = [0, 0]\<rparr>,
      node_mlp_2 = \<lparr>weight = [[0, 0], [0, 0]], bias = [0, 0]\<rparr>,
      node_norm_weight = [1, 1], node_norm_bias = [0, 0],
      coord_mlp_0 = \<lparr>weight = [[1, 0], [0, 0]], bias = [0, 0]\<rparr>,
      coord_mlp_2 = \<lparr>weight = [[1, 0]], bias = [0]\<rparr>\<rparr>"

section \<open>The positional encoder\<close>

lemma concat_slice:
  "\<forall>x\<in>set xs. length (f x) = w \<Longrightarrow> p < length xs \<Longrightarrow>
     take w (drop (p * w) (concat (map f xs))) = f (xs ! p)"
proof (induction xs arbitrary: p)
  case Nil
  then show ?case by simp
next
  case (Cons a xs)
  show ?case
  proof (cases p)
    case 0
    with Cons.prems show ?thesis by simp
  next
    case (Suc q)
    with Cons.prems have "q < length xs" by simp
    with Cons have "take w (drop (q * w) (concat (map f xs))) = f (xs ! q)" by simp
    moreover have "length (f a) = w" using Cons.prems by simp
    ultimately show ?thesis using Suc by (simp add: add.commute)
  qed
qed

lemma length_pos_embedding: "length (pos_embedding d s x) = d div 2 + d div 2"
  by (simp add: pos_embedding_def inv_freq_def)

lemma pos_embedding_formula:
  "pos_embedding d s x =
     map (\<lambda>i. sin (x * pi * s powr (- (2 * real i / real d)))) [0..<d div 2] @
     map (\<lambda>i. cos (x * pi * s powr (- (2 * real i / real d)))) [0..<d div 2]"
  by (simp add: pos_embedding_def inv_freq_def powr_minus inverse_eq_divide o_def)

lemma pos_embedding_zero:
  "pos_embedding d s 0 = replicate (d div 2) 0 @ replicate (d div 2) 1"
  by (simp add: pos_embedding_def inv_freq_def o_def map_replicate_const)

lemma last_axis_encoding:
  "p < length (data x) \<Longrightarrow>
   last_axis (sinusoidal_positional_encoding x d s) p = pos_embedding d s (data x ! p)"
  by (simp add: last_axis_def sinusoidal_positional_encoding_def concat_slice length_pos_embedding)

text \<open>
  C7. For an even \<open>embed_dim \<ge> 2\<close> the encoding has the shape of its input followed by
  \<open>embed_dim\<close>; at every element its last axis is the sines
  \<open>sin (position * pi * f i)\<close> for \<open>i < embed_dim div 2\<close> followed by the cosines, with
  \<open>f i = embed_size powr (- 2 i / embed_dim)\<close>; at position 0 the sine half is all zero
  and the cosine half all one. (The base is positive, as every base the program passes.)
\<close>

theorem sinusoidal_positional_encoding_even:
  assumes "even embed_dim" and "2 \<le> embed_dim" and "0 < embed_size"
  shows "shape (sinusoidal_positional_encoding x embed_dim embed_size) = shape x @ [embed_dim] \<and>
    (\<forall>p < length (data x).
       last_axis (sinusoidal_positional_encoding x embed_dim embed_size) p =
         map (\<lambda>i. sin (data x ! p * pi * embed_size powr (- (2 * real i / real embed_dim))))
           [0..<embed_dim div 2] @
         map (\<lambda>i. cos (data x ! p * pi * embed_size powr (- (2 * real i / real embed_dim))))
           [0..<embed_dim div 2] \<and>
       (data x ! p = 0 \<longrightarrow>
          last_axis (sinusoidal_positional_encoding x embed_dim embed_size) p =
            replicate (embed_dim div 2) 0 @ replicate (embed_dim div 2) 1))"
proof -
  from assms(1) have "embed_dim div 2 + embed_dim div 2 = embed_dim"
    by (auto elim: evenE)
  then have "shape (sinusoidal_positional_encoding x embed_dim embed_size) = shape x @ [embed_dim]"
    by (simp add: sinusoidal_positional_encoding_def)
  moreover have "\<forall>p < length (data x).
       last_axis (sinusoidal_positional_encoding x embed_dim embed_size) p =
         map (\<lambda>i. sin (data x ! p * pi * embed_size powr (- (2 * real i / real embed_dim))))
           [0..<embed_dim div 2] @
         map (\<lambda>i. cos (data x ! p * pi * embed_size powr (- (2 * real i / real embed_dim))))
           [0..<embed_dim div 2] \<and>
       (data x ! p = 0 \<longrightarrow>
          last_axis (sinusoidal_positional_encoding x embed_dim embed_size) p =
            replicate (embed_dim div 2) 0 @ replicate (embed_dim div 2) 1)"
    using pos_embedding_formula pos_embedding_zero by (simp add: last_axis_encoding)
  ultimately show ?thesis by blast
qed

theorem sinusoidal_positional_encoding_even_witness:
  "even (2::nat) \<and> (2::nat) \<le> 2 \<and> (0::real) < 10000 \<and>
   shape (sinusoidal_positional_encoding \<lparr>shape = [2], data = [0, 1]\<rparr> 2 10000) = [2, 2] \<and>
   last_axis (sinusoidal_positional_encoding \<lparr>shape = [2], data = [0, 1]\<rparr> 2 10000) 0 = [0, 1] \<and>
   last_axis (sinusoidal_positional_encoding \<lparr>shape = [2], data = [0, 1]\<rparr> 2 10000) 1 = [0, - 1]"
  using sinusoidal_positional_encoding_even [of 2 10000 "\<lparr>shape = [2], data = [0, 1]\<rparr>"]
  by (simp add: upt_rec All_less_Suc numeral_2_eq_2)

text \<open>
  C9. For an odd \<open>embed_dim\<close> the encoder returns a tensor all the same (it has no
  failing branch), whose last axis has the width
  \<open>2 * (embed_dim div 2) = embed_dim - 1\<close>.
\<close>

theorem odd_embed_dim_rounds_down:
  assumes "odd embed_dim"
  shows "2 * (embed_dim div 2) = embed_dim - 1 \<and>
    shape (sinusoidal_positional_encoding x embed_dim embed_size) = shape x @ [embed_dim - 1] \<and>
    length (data (sinusoidal_positional_encoding x embed_dim embed_size))
      = length (data x) * (embed_dim - 1) \<and>
    (\<forall>p < length (data x).
       length (last_axis (sinusoidal_positional_encoding x embed_dim embed_size) p) = embed_dim - 1)"
proof -
  from assms have w: "embed_dim div 2 + embed_dim div 2 = embed_dim - 1"
    by (auto elim: oddE)
  have len: "length (concat (map (pos_embedding embed_dim embed_size) xs))
      = length xs * (embed_dim - 1)" for xs
    by (induction xs) (simp_all add: length_pos_embedding w)
  have "2 * (embed_dim div 2) = embed_dim - 1"
    using w by simp
  moreover have "shape (sinusoidal_positional_encoding x embed_dim embed_size)
      = shape x @ [embed_dim - 1]"
    using w by (simp add: sinusoidal_positional_encoding_def)
  moreover have "length (data (sinusoidal_positional_encoding x embed_dim embed_size))
      = length (data x) * (embed_dim - 1)"
    using len by (simp add: sinusoidal_positional_encoding_def)
  moreover have "\<forall>p < length (data x).
       length (last_axis (sinusoidal_positional_encoding x embed_dim embed_size) p) = embed_dim - 1"
    using w by (simp add: last_axis_encoding length_pos_embedding)
  ultimately show ?thesis by blast
qed

theorem odd_embed_dim_rounds_down_witness:
  "odd (3::nat) \<and>
   shape (sinusoidal_positional_encoding \<lparr>shape = [1, 2], data = [0, 5]\<rparr> 3 256) = [1, 2, 2] \<and>
   length (data (sinusoidal_positional_encoding \<lparr>shape = [1, 2], data = [0, 5]\<rparr> 3 256)) = 4 \<and>
   length (last_axis (sinusoidal_positional_encoding \<lparr>shape = [1, 2], data = [0, 5]\<rparr> 3 256) 1) = 2"
  using odd_embed_dim_rounds_down [of 3 "\<lparr>shape = [1, 2], data = [0, 5]\<rparr>" 256]
  by simp

section \<open>The noise schedule\<close>











lemma cumprod_from_length: "length (cumprod_from acc xs) = length xs"
  by (induction xs arbitrary: acc) simp_all

lemma init_model_schedule:
  "betas (init_model mr n ps h ed ls na bs be) = linspace bs be n"
  "alphas (init_model mr n ps h ed ls na bs be) = map (\<lambda>b. 1 - b) (linspace bs be n)"
  "alpha_cumprod (init_model mr n ps h ed ls na bs be) = cumprod (map (\<lambda>b. 1 - b) (linspace bs be n))"
  "alpha_cumprod_prev (init_model mr n ps h ed ls na bs be)
     = [1] @ butlast (cumprod (map (\<lambda>b. 1 - b) (linspace bs be n)))"
  by (simp_all add: init_model_def Let_def)

lemma cumprod_from_first: "xs \<noteq> [] \<Longrightarrow> cumprod_from acc xs ! 0 = acc * hd xs"
  by (cases xs) simp_all


subsection \<open>Rounding to float32\<close>





























subsection \<open>The schedule of the constructor\<close>

lemma cumprod_from_rounded_exact: "cumprod_from_rounded (\<lambda>x. x) acc xs = cumprod_from acc xs"
  by (induction xs arbitrary: acc) simp_all

lemma init_model_rounded_exact:
  "init_model_rounded (\<lambda>x. x) mr n ps h ed ls na bs be = init_model mr n ps h ed ls na bs be"
  by (simp add: init_model_rounded_def init_model_def linspace_rounded_def cumprod_rounded_def
      cumprod_def cumprod_from_rounded_exact Let_def)














section \<open>The forward pass and the schedule index\<close>

lemma to_long_valid:
  assumes "0 \<le> t" and "t < int T"
  shows "to_long (real_of_int t / real T) = 0"
proof -
  from assms have T: "0 < real T" by simp
  have lo: "0 \<le> real_of_int t / real T" using assms(1) T by simp
  have "real_of_int t < real T" using assms(2) by linarith
  then have hi: "real_of_int t / real T < 1" using T by simp
  from lo hi have "\<lfloor>real_of_int t / real T\<rfloor> = 0" by linarith
  with lo show ?thesis by (simp add: to_long_def)
qed

lemma index_select_in_range:
  "\<forall>i\<in>set is. 0 \<le> i \<and> i < int (length xs) \<Longrightarrow>
     index_select xs is = Inr (map (\<lambda>i. xs ! nat i) is)"
  by (induction "is") (simp_all add: tensor_index_def)

lemma forward_valid:
  assumes "\<forall>t\<in>set timesteps. 0 \<le> t \<and> t < int (diffusion_steps m)"
    and "alpha_cumprod m \<noteq> []"
  shows "forward m cs residue_indices timesteps atom_mask =
     Inr (apply_mask
       (ddpm_noise (map (\<lambda>t. alpha_cumprod m ! 0) timesteps) cs
          (fst (egnn_stack (egnn_layers m) cs
             (initial_node_features m residue_indices (normalized_times m timesteps))
             atom_mask residue_indices)))
       atom_mask)"
proof -
  have idx: "map to_long (normalized_times m timesteps) = map (\<lambda>t. 0) timesteps"
    using assms(1) by (simp add: normalized_times_def to_long_valid)
  have "\<forall>i\<in>set (map (\<lambda>t. 0::int) timesteps). 0 \<le> i \<and> i < int (length (alpha_cumprod m))"
    using assms(2) by auto
  then have "index_select (alpha_cumprod m) (map (\<lambda>t. 0) timesteps)
      = Inr (map (\<lambda>i. alpha_cumprod m ! nat i) (map (\<lambda>t. 0) timesteps))"
    by (rule index_select_in_range)
  then show ?thesis
    by (simp add: forward_def Let_def idx o_def)
qed

lemma sqrt_16_25: "sqrt (16 / 25) = 4 / 5"
  by (rule real_sqrt_unique) (simp_all add: power2_eq_square)

lemma sqrt_9_25: "sqrt (9 / 25) = 3 / 5"
  by (rule real_sqrt_unique) (simp_all add: power2_eq_square)

lemma ceiling_minus_1: "\<lceil>- 1 :: real\<rceil> = - 1"
  by (simp add: ceiling_def)

lemma two_step_model_fields:
  "alpha_cumprod two_step_model = [16 / 25, 9 / 25]"
  "diffusion_steps two_step_model = 2"
  "egnn_layers two_step_model = []"
  by (simp_all add: two_step_model_def init_model_def linspace_def cumprod_def upt_rec Let_def)

text \<open>
  C1. The claim: the noise is extracted with \<open>alpha_cumprod[t]\<close>. The code rebinds
  \<open>times\<close> to \<open>times / diffusion_steps\<close> before it indexes the schedule with
  \<open>times.long()\<close>, so every valid timestep reads \<open>alpha_cumprod[0]\<close>
  (\<open>forward_valid\<close>). With two steps and \<open>t = 1\<close> the call returns
  \<open>1/3\<close>, the value for \<open>alpha_cumprod[0] = 16/25\<close>, where the claim's
  formula with \<open>alpha_cumprod[1] = 9/25\<close> gives \<open>1/2\<close>.
\<close>

theorem forward_ignores_timestep:
  "forward two_step_model [[[[1, 0, 0]]]] [[0]] [1] [[[1]]]
     = Inr [[[[1 / 3, 0, 0]]]] \<and>
   ddpm_noise [alpha_cumprod two_step_model ! 1]
     [[[[1, 0, 0]]]] [[[[1, 0, 0]]]] = [[[[1 / 2, 0, 0]]]] \<and>
   ddpm_noise [alpha_cumprod two_step_model ! 0]
     [[[[1, 0, 0]]]] [[[[1, 0, 0]]]] = [[[[1 / 3, 0, 0]]]]"
  by (simp add: forward_def normalized_times_def two_step_model_fields egnn_stack_def to_long_def
      tensor_index_def ddpm_noise_def predicted_noise_elem_def noisy_elem_def apply_mask_def sqrt_16_25 sqrt_9_25 Let_def)

text \<open>
  C6. The claim: noising \<open>x0\<close> at timestep \<open>t\<close> with the noise \<open>eps\<close>
  and inverting through the model, with a network that returns \<open>x0\<close>, gives back
  \<open>eps\<close>. With two steps, \<open>t = 1\<close>, \<open>x0 = (1, 0, 0)\<close> and
  \<open>eps = (1/2, 0, 0)\<close> the noisy coordinates are \<open>x0\<close> itself, the layer stack
  (no layer) returns them, and the model answers \<open>(1/3, 0, 0)\<close>: it inverts with
  \<open>alpha_cumprod[0]\<close>, not with the \<open>alpha_cumprod[1]\<close> of the noising. With
  one and the same alpha the two formulas are inverse (\<open>ddpm_inverse_same_alpha\<close>).
\<close>

theorem roundtrip_misses_injected_noise:
  "noisy_coords two_step_model [1] [[[[1, 0, 0]]]] [[[[1 / 2, 0, 0]]]]
     = Inr [[[[1, 0, 0]]]] \<and>
   fst (egnn_stack (egnn_layers two_step_model) [[[[1, 0, 0]]]]
     (initial_node_features two_step_model [[0]]
        (normalized_times two_step_model [1]))
     [[[1]]] [[0]]) = [[[[1, 0, 0]]]] \<and>
   forward two_step_model [[[[1, 0, 0]]]] [[0]] [1] [[[1]]]
     = Inr [[[[1 / 3, 0, 0]]]]"
  by (simp add: forward_def noisy_coords_def normalized_times_def two_step_model_fields egnn_stack_def
      to_long_def tensor_index_def ddpm_noise_def predicted_noise_elem_def noisy_elem_def apply_mask_def sqrt_16_25 sqrt_9_25 Let_def)

lemma ddpm_inverse_same_alpha:
  assumes "0 < a" and "a < 1"
  shows "predicted_noise_elem a (noisy_elem a x e) x = e"
  using assms by (simp add: predicted_noise_elem_def noisy_elem_def)

lemma index_select_error_iff:
  "index_select xs is = Inl IndexError \<longleftrightarrow>
     (\<exists>i\<in>set is. i < - int (length xs) \<or> int (length xs) \<le> i)"
proof (induction "is")
  case Nil
  then show ?case by simp
next
  case (Cons i "is")
  show ?case
  proof (cases "i < - int (length xs) \<or> int (length xs) \<le> i")
    case True
    then have "tensor_index xs i = Inl IndexError"
      by (auto simp: tensor_index_def Let_def)
    with True show ?thesis by auto
  next
    case False
    then have "tensor_index xs i
        = Inr (if 0 \<le> i then xs ! nat i else xs ! nat (i + int (length xs)))"
      by (simp add: tensor_index_def Let_def)
    then obtain v where v: "tensor_index xs i = Inr v" by blast
    show ?thesis
    proof (cases "index_select xs is")
      case (Inl e)
      moreover have "e = IndexError" by (cases e) simp
      ultimately show ?thesis using v False Cons.IH by simp
    next
      case (Inr vs)
      then show ?thesis using v False Cons.IH by simp
    qed
  qed
qed

lemma index_select_wraps:
  "\<forall>i\<in>set is. - int (length xs) \<le> i \<and> i < int (length xs) \<Longrightarrow>
     index_select xs is
       = Inr (map (\<lambda>i. xs ! nat (if 0 \<le> i then i else i + int (length xs))) is)"
  by (induction "is") (simp_all add: tensor_index_def Let_def)

lemma schedule_indices_valid:
  "\<forall>t\<in>set ts. 0 \<le> t \<and> t < int (diffusion_steps m) \<Longrightarrow>
     schedule_indices m ts = map (\<lambda>t. 0) ts"
  by (simp add: schedule_indices_def normalized_times_def to_long_valid)

text \<open>
  C2, amended. The model does not check its timesteps: a call raises the out-of-range
  error exactly when an index that it looks up in the schedule (\<open>schedule_indices\<close>,
  the \<open>times.long()\<close> of line 142) is outside \<open>[-diffusion_steps, diffusion_steps)\<close>.
  When every index is inside, the call returns, and an index within
  \<open>[-diffusion_steps, 0)\<close> counts from the end of the schedule, silently. A call
  whose timesteps are all within \<open>[0, diffusion_steps)\<close> returns.
\<close>

theorem timestep_errors_from_indexing:
  assumes "length (alpha_cumprod m) = diffusion_steps m"
  shows "(forward m cs rs ts ms = Inl IndexError \<longleftrightarrow>
      (\<exists>i\<in>set (schedule_indices m ts).
          i < - int (diffusion_steps m) \<or> int (diffusion_steps m) \<le> i)) \<and>
   ((\<forall>i\<in>set (schedule_indices m ts).
        - int (diffusion_steps m) \<le> i \<and> i < int (diffusion_steps m)) \<longrightarrow>
      forward m cs rs ts ms =
        Inr (apply_mask
          (ddpm_noise
             (map (\<lambda>i. alpha_cumprod m ! nat (if 0 \<le> i then i else i + int (diffusion_steps m)))
                (schedule_indices m ts))
             cs
             (fst (egnn_stack (egnn_layers m) cs
                (initial_node_features m rs (normalized_times m ts)) ms rs)))
          ms)) \<and>
   ((\<forall>t\<in>set ts. 0 \<le> t \<and> t < int (diffusion_steps m)) \<longrightarrow>
      (\<exists>out. forward m cs rs ts ms = Inr out))"
proof -
  let ?is = "schedule_indices m ts"
  let ?n = "int (diffusion_steps m)"
  have err: "forward m cs rs ts ms = Inl IndexError \<longleftrightarrow>
      index_select (alpha_cumprod m) ?is = Inl IndexError"
    by (simp add: forward_def schedule_indices_def Let_def split: sum.splits)
  have c1: "forward m cs rs ts ms = Inl IndexError \<longleftrightarrow>
      (\<exists>i\<in>set ?is. i < - ?n \<or> ?n \<le> i)"
    using err index_select_error_iff [of "alpha_cumprod m" ?is] assms by simp
  have c2: "forward m cs rs ts ms =
        Inr (apply_mask
          (ddpm_noise
             (map (\<lambda>i. alpha_cumprod m ! nat (if 0 \<le> i then i else i + ?n)) ?is)
             cs
             (fst (egnn_stack (egnn_layers m) cs
                (initial_node_features m rs (normalized_times m ts)) ms rs)))
          ms)"
    if "\<forall>i\<in>set ?is. - ?n \<le> i \<and> i < ?n"
  proof -
    from that assms
    have "\<forall>i\<in>set ?is. - int (length (alpha_cumprod m)) \<le> i \<and> i < int (length (alpha_cumprod m))"
      by simp
    then have "index_select (alpha_cumprod m) ?is
        = Inr (map (\<lambda>i. alpha_cumprod m ! nat (if 0 \<le> i then i else i + int (length (alpha_cumprod m)))) ?is)"
      by (rule index_select_wraps)
    then have "index_select (alpha_cumprod m) (map to_long (normalized_times m ts))
        = Inr (map (\<lambda>i. alpha_cumprod m ! nat (if 0 \<le> i then i else i + ?n)) ?is)"
      using assms by (simp add: schedule_indices_def)
    then show ?thesis
      by (simp add: forward_def Let_def)
  qed
  have c3: "\<exists>out. forward m cs rs ts ms = Inr out"
    if v: "\<forall>t\<in>set ts. 0 \<le> t \<and> t < int (diffusion_steps m)"
  proof -
    have "?is = map (\<lambda>t. 0) ts" using v by (rule schedule_indices_valid)
    moreover have "0 < ?n" if "ts \<noteq> []"
    proof -
      from that obtain t where "t \<in> set ts" by (cases ts) auto
      with v have "0 \<le> t" "t < int (diffusion_steps m)" by auto
      then show ?thesis by linarith
    qed
    ultimately have "\<forall>i\<in>set ?is. - ?n \<le> i \<and> i < ?n"
      by (cases "ts = []") auto
    then show ?thesis using c2 by blast
  qed
  from c1 c2 c3 show ?thesis by blast
qed

theorem timestep_errors_from_indexing_witness:
  "length (alpha_cumprod two_step_model) = diffusion_steps two_step_model \<and>
   schedule_indices two_step_model [4] = [2] \<and>
   forward two_step_model [[[[1, 0, 0]]]] [[0]] [4] [[[1]]] = Inl IndexError \<and>
   schedule_indices two_step_model [- 2] = [- 1] \<and>
   forward two_step_model [[[[1, 0, 0]]]] [[0]] [- 2] [[[1]]] = Inr [[[[1 / 2, 0, 0]]]] \<and>
   schedule_indices two_step_model [3] = [1] \<and>
   forward two_step_model [[[[1, 0, 0]]]] [[0]] [3] [[[1]]] = Inr [[[[1 / 2, 0, 0]]]] \<and>
   (\<exists>out. forward two_step_model [[[[1, 0, 0]]]] [[0]] [1] [[[1]]] = Inr out)"
proof -
  have len: "length (alpha_cumprod two_step_model) = diffusion_steps two_step_model"
    by (simp add: two_step_model_fields)
  have i4: "schedule_indices two_step_model [4] = [2]"
    and i2: "schedule_indices two_step_model [- 2] = [- 1]"
    and i3: "schedule_indices two_step_model [3] = [1]"
    by (simp_all add: schedule_indices_def normalized_times_def two_step_model_fields to_long_def
        ceiling_minus_1)
  note th = timestep_errors_from_indexing [OF len, of "[[[[1, 0, 0]]]]" "[[0]]" _ "[[[1]]]"]
  from th [of "[4]"] have f4: "forward two_step_model [[[[1, 0, 0]]]] [[0]] [4] [[[1]]] = Inl IndexError"
    by (simp add: i4 two_step_model_fields)
  from th [of "[- 2]"]
  have f2: "forward two_step_model [[[[1, 0, 0]]]] [[0]] [- 2] [[[1]]] = Inr [[[[1 / 2, 0, 0]]]]"
    by (simp add: i2 egnn_stack_def two_step_model_fields ddpm_noise_def predicted_noise_elem_def
        apply_mask_def sqrt_9_25 sqrt_16_25)
  from th [of "[3]"]
  have f3: "forward two_step_model [[[[1, 0, 0]]]] [[0]] [3] [[[1]]] = Inr [[[[1 / 2, 0, 0]]]]"
    by (simp add: i3 egnn_stack_def two_step_model_fields ddpm_noise_def predicted_noise_elem_def
        apply_mask_def sqrt_9_25 sqrt_16_25)
  from th [of "[1]"]
  have f1: "\<exists>out. forward two_step_model [[[[1, 0, 0]]]] [[0]] [1] [[[1]]] = Inr out"
    by (simp add: two_step_model_fields)
  from len i4 f4 i2 f2 i3 f3 f1 show ?thesis by blast
qed

text \<open>
  C2 as stated fails: with two steps the timesteps 2, -1 and -2 are outside
  \<open>[0, 2)\<close>, and the call returns a value for each.
\<close>

theorem out_of_range_timesteps_accepted:
  "forward two_step_model [[[[1, 0, 0]]]] [[0]] [2] [[[1]]] = Inr [[[[1 / 2, 0, 0]]]] \<and>
   forward two_step_model [[[[1, 0, 0]]]] [[0]] [- 1] [[[1]]] = Inr [[[[1 / 3, 0, 0]]]] \<and>
   forward two_step_model [[[[1, 0, 0]]]] [[0]] [- 2] [[[1]]] = Inr [[[[1 / 2, 0, 0]]]]"
  by (simp add: forward_def normalized_times_def two_step_model_fields egnn_stack_def to_long_def
      ceiling_minus_1 tensor_index_def ddpm_noise_def predicted_noise_elem_def apply_mask_def
      sqrt_16_25 sqrt_9_25 Let_def)

section \<open>The layers: shapes and masked atoms\<close>

lemma residues_shape_nth:
  "residues_shape N A c \<longleftrightarrow>
     length c = N \<and> (\<forall>n<N. length (c ! n) = A \<and> (\<forall>a<A. length (c ! n ! a) = 3))"
  by (auto simp: residues_shape_def list_all_length)

lemma rows_shape_nth:
  "rows_shape B N xs \<longleftrightarrow> length xs = B \<and> (\<forall>b<B. length (xs ! b) = N)"
  by (auto simp: rows_shape_def list_all_length)

lemma coords_shape_nth:
  "coords_shape B N A cs \<longleftrightarrow> length cs = B \<and> (\<forall>b<B. residues_shape N A (cs ! b))"
  by (auto simp: coords_shape_def list_all_length)

lemma mask_shape_nth:
  "mask_shape B N A ms \<longleftrightarrow> length ms = B \<and> (\<forall>b<B. rows_shape N A (ms ! b))"
  by (auto simp: mask_shape_def list_all_length)

lemma length_vadd: "length (vadd u v) = min (length u) (length v)"
  by (simp add: vadd_def)

lemma length_vsub: "length (vsub u v) = min (length u) (length v)"
  by (simp add: vsub_def)

lemma length_vscale: "length (vscale s v) = length v"
  by (simp add: vscale_def)

lemma length_vsum: "\<forall>v\<in>set vs. w \<le> length v \<Longrightarrow> length (vsum w vs) = w"
proof (induction vs)
  case Nil
  then show ?case by (simp add: vsum_def)
next
  case (Cons v vs)
  then have "length (vsum w vs) = w" by simp
  moreover have "vsum w (v # vs) = vadd v (vsum w vs)" by (simp add: vsum_def)
  moreover have "w \<le> length v" using Cons.prems by simp
  ultimately show ?case by (simp add: length_vadd)
qed

lemma length_vmean: "\<forall>v\<in>set vs. 3 \<le> length v \<Longrightarrow> length (vmean vs) = 3"
  by (simp add: vmean_def length_vsum)

lemma vadd_masked: "length u = length v \<Longrightarrow> vadd v (vscale 0 u) = v"
  by (simp add: vadd_def vscale_def list_eq_iff_nth_eq)

lemma length_directional_vectors: "length (directional_vectors c) = length c"
  by (simp add: directional_vectors_def)

lemma directional_vectors_width:
  assumes "residues_shape N A c" and "di \<in> set (directional_vectors c)" and "dij \<in> set di"
  shows "length dij = 3"
proof -
  have atoms: "length v = 3" if "cn \<in> set c" "v \<in> set cn" for cn v
    using assms(1) that by (auto simp: residues_shape_def list_all_iff)
  from assms(2) obtain ci where ci: "ci \<in> set c" "di = map (\<lambda>cj. vmean (map2 vsub ci cj)) c"
    by (auto simp: directional_vectors_def)
  with assms(3) obtain cj where cj: "cj \<in> set c" "dij = vmean (map2 vsub ci cj)"
    by auto
  have "\<forall>v\<in>set (map2 vsub ci cj). 3 \<le> length v"
  proof
    fix v assume "v \<in> set (map2 vsub ci cj)"
    then obtain x y where "(x, y) \<in> set (zip ci cj)" "v = vsub x y" by auto
    then have "x \<in> set ci" "y \<in> set cj" "v = vsub x y" by (auto dest: set_zip_leftD set_zip_rightD)
    with atoms ci(1) cj(1) show "3 \<le> length v" by (simp add: length_vsub)
  qed
  with cj(2) show ?thesis by (simp add: length_vmean)
qed

lemma coord_mlp_scalar:
  assumes "scalar_gate L"
  shows "\<exists>s. coord_mlp L x = [s]"
proof -
  from assms obtain w b where "weight (coord_mlp_2 L) = [w]" "bias (coord_mlp_2 L) = [b]"
    by (auto simp: scalar_gate_def length_Suc_conv)
  then show ?thesis by (simp add: coord_mlp_def linear_apply_def)
qed

lemma length_bmul_scalar: "scalar_gate L \<Longrightarrow> length (bmul (coord_mlp L x) d) = length d"
  using coord_mlp_scalar [of L x] by (auto simp: bmul_def length_vscale)

lemma length_edge_messages:
  "length h = length c \<Longrightarrow> length r = length c \<Longrightarrow> length (edge_messages L c h r) = length c"
  by (simp add: edge_messages_def rel_residue_enc_def length_directional_vectors)

lemma length_coord_updates:
  "length h = length c \<Longrightarrow> length r = length c \<Longrightarrow> length (coord_updates L c h r) = length c"
  by (simp add: coord_updates_def length_edge_messages length_directional_vectors)

lemma coord_updates_width:
  assumes "residues_shape N A c" and "scalar_gate L" and "u \<in> set (coord_updates L c h r)"
  shows "length u = 3"
proof -
  from assms(3) obtain mi di where
    di: "di \<in> set (directional_vectors c)" and
    u: "u = vsum 3 (map2 (\<lambda>mij dij. bmul (coord_mlp L mij) dij) mi di)"
    by (auto simp: coord_updates_def dest: set_zip_rightD)
  have "\<forall>v\<in>set (map2 (\<lambda>mij dij. bmul (coord_mlp L mij) dij) mi di). 3 \<le> length v"
  proof
    fix v assume "v \<in> set (map2 (\<lambda>mij dij. bmul (coord_mlp L mij) dij) mi di)"
    then obtain mij dij where "dij \<in> set di" "v = bmul (coord_mlp L mij) dij"
      by (auto dest: set_zip_rightD)
    with directional_vectors_width [OF assms(1) di] assms(2)
    show "3 \<le> length v" by (simp add: length_bmul_scalar)
  qed
  with u show ?thesis by (simp add: length_vsum)
qed

lemma updated_coords_nth:
  assumes "n < length c" and "length u = length c" and "length m = length c"
    and "a < length (c ! n)" and "length (m ! n) = length (c ! n)"
  shows "updated_coords c u m ! n ! a = vadd (c ! n ! a) (vscale (m ! n ! a) (u ! n))"
  using assms by (simp add: updated_coords_def)

lemma length_updated_coords:
  "length u = length c \<Longrightarrow> length m = length c \<Longrightarrow> length (updated_coords c u m) = length c"
  by (simp add: updated_coords_def)

lemma length_updated_coords_row:
  assumes "n < length c" and "length u = length c" and "length m = length c"
    and "length (m ! n) = length (c ! n)"
  shows "length (updated_coords c u m ! n) = length (c ! n)"
  using assms by (simp add: updated_coords_def)

lemma updated_coords_shape:
  assumes c: "residues_shape N A c" and m: "rows_shape N A m"
    and u: "length u = N" "\<forall>x\<in>set u. length x = 3"
  shows "residues_shape N A (updated_coords c u m)"
proof -
  from c have lc: "length c = N" and rows: "\<And>n. n < N \<Longrightarrow> length (c ! n) = A"
    and vecs: "\<And>n a. n < N \<Longrightarrow> a < A \<Longrightarrow> length (c ! n ! a) = 3"
    by (simp_all add: residues_shape_nth)
  from m have lm: "length m = N" and mrows: "\<And>n. n < N \<Longrightarrow> length (m ! n) = A"
    by (simp_all add: rows_shape_nth)
  have "length (updated_coords c u m) = N"
    using lc lm u(1) by (simp add: length_updated_coords)
  moreover have "length (updated_coords c u m ! n) = A" if "n < N" for n
    using that lc lm u(1) rows mrows by (simp add: length_updated_coords_row)
  moreover have "length (updated_coords c u m ! n ! a) = 3" if "n < N" "a < A" for n a
  proof -
    have "u ! n \<in> set u" using that(1) u(1) by simp
    with u(2) have "length (u ! n) = 3" by simp
    moreover have "updated_coords c u m ! n ! a = vadd (c ! n ! a) (vscale (m ! n ! a) (u ! n))"
      using that lc lm u(1) rows mrows by (simp add: updated_coords_nth)
    ultimately show ?thesis using vecs [OF that] by (simp add: length_vadd length_vscale)
  qed
  ultimately show ?thesis by (simp add: residues_shape_nth)
qed

lemma egnn_forward1_shape:
  assumes "residues_shape N A c" and "rows_shape N A m" and "length h = N" and "length r = N"
    and "scalar_gate L"
  shows "residues_shape N A (fst (egnn_forward1 L c h m r))"
    and "length (snd (egnn_forward1 L c h m r)) = N"
proof -
  from assms(1) have lc: "length c = N" by (simp add: residues_shape_nth)
  have "length (coord_updates L c h r) = N"
    using lc assms(3,4) by (simp add: length_coord_updates)
  moreover have "\<forall>x\<in>set (coord_updates L c h r). length x = 3"
    using coord_updates_width [OF assms(1,5)] by blast
  ultimately show "residues_shape N A (fst (egnn_forward1 L c h m r))"
    using assms(1,2) by (simp add: egnn_forward1_def updated_coords_shape)
  show "length (snd (egnn_forward1 L c h m r)) = N"
    using lc assms(3,4) by (simp add: egnn_forward1_def updated_node_features_def length_edge_messages)
qed

lemma egnn_forward1_masked:
  assumes "residues_shape N A c" and "rows_shape N A m" and "length h = N" and "length r = N"
    and "scalar_gate L" and "n < N" and "a < A" and "m ! n ! a = 0"
  shows "fst (egnn_forward1 L c h m r) ! n ! a = c ! n ! a"
proof -
  from assms(1,6,7) have lc: "length c = N" "length (c ! n) = A" "length (c ! n ! a) = 3"
    by (simp_all add: residues_shape_nth)
  from assms(2,6) have lm: "length m = N" "length (m ! n) = A"
    by (simp_all add: rows_shape_nth)
  have lu: "length (coord_updates L c h r) = N"
    using lc(1) assms(3,4) by (simp add: length_coord_updates)
  then have "coord_updates L c h r ! n \<in> set (coord_updates L c h r)"
    using assms(6) by simp
  then have w: "length (coord_updates L c h r ! n) = 3"
    by (rule coord_updates_width [OF assms(1,5)])
  have "fst (egnn_forward1 L c h m r) ! n ! a
      = vadd (c ! n ! a) (vscale (m ! n ! a) (coord_updates L c h r ! n))"
    using lc lm lu assms(6,7) by (simp add: egnn_forward1_def updated_coords_nth)
  also have "\<dots> = c ! n ! a"
    using w lc(3) assms(8) by (simp add: vadd_masked)
  finally show ?thesis .
qed

lemma egnn_forward_nth:
  assumes "length hs = length cs" and "length ms = length cs" and "length rs = length cs"
    and "b < length cs"
  shows "fst (egnn_forward L cs hs ms rs) ! b = fst (egnn_forward1 L (cs ! b) (hs ! b) (ms ! b) (rs ! b))"
    and "snd (egnn_forward L cs hs ms rs) ! b = snd (egnn_forward1 L (cs ! b) (hs ! b) (ms ! b) (rs ! b))"
  using assms by (simp_all add: egnn_forward_def Let_def)

lemma length_egnn_forward:
  assumes "length hs = length cs" and "length ms = length cs" and "length rs = length cs"
  shows "length (fst (egnn_forward L cs hs ms rs)) = length cs"
    and "length (snd (egnn_forward L cs hs ms rs)) = length cs"
  using assms by (simp_all add: egnn_forward_def Let_def)

lemma egnn_forward_shape:
  assumes cs: "coords_shape B N A cs" and hs: "rows_shape B N hs"
    and ms: "mask_shape B N A ms" and rs: "rows_shape B N rs" and L: "scalar_gate L"
  shows "coords_shape B N A (fst (egnn_forward L cs hs ms rs))"
    and "rows_shape B N (snd (egnn_forward L cs hs ms rs))"
proof -
  from cs hs ms rs have len: "length cs = B" "length hs = length cs" "length ms = length cs"
      "length rs = length cs"
    by (simp_all add: coords_shape_nth rows_shape_nth mask_shape_nth)
  have elem: "residues_shape N A (cs ! b)" "rows_shape N A (ms ! b)" "length (hs ! b) = N"
      "length (rs ! b) = N" if "b < B" for b
    using cs hs ms rs that by (simp_all add: coords_shape_nth rows_shape_nth mask_shape_nth)
  have "residues_shape N A (fst (egnn_forward L cs hs ms rs) ! b)" if "b < B" for b
    using that len elem [OF that] L by (simp add: egnn_forward_nth egnn_forward1_shape)
  then show "coords_shape B N A (fst (egnn_forward L cs hs ms rs))"
    using len by (simp add: coords_shape_nth length_egnn_forward)
  have "length (snd (egnn_forward L cs hs ms rs) ! b) = N" if "b < B" for b
    using that len elem [OF that] L by (simp add: egnn_forward_nth egnn_forward1_shape)
  then show "rows_shape B N (snd (egnn_forward L cs hs ms rs))"
    using len by (simp add: rows_shape_nth length_egnn_forward)
qed

lemma egnn_forward_masked:
  assumes cs: "coords_shape B N A cs" and hs: "rows_shape B N hs"
    and ms: "mask_shape B N A ms" and rs: "rows_shape B N rs" and L: "scalar_gate L"
    and slot: "b < B" "n < N" "a < A" and zero: "ms ! b ! n ! a = 0"
  shows "fst (egnn_forward L cs hs ms rs) ! b ! n ! a = cs ! b ! n ! a"
proof -
  from cs hs ms rs have len: "length cs = B" "length hs = length cs" "length ms = length cs"
      "length rs = length cs"
    by (simp_all add: coords_shape_nth rows_shape_nth mask_shape_nth)
  have elem: "residues_shape N A (cs ! b)" "rows_shape N A (ms ! b)" "length (hs ! b) = N"
      "length (rs ! b) = N"
    using cs hs ms rs slot(1) by (simp_all add: coords_shape_nth rows_shape_nth mask_shape_nth)
  have "fst (egnn_forward L cs hs ms rs) ! b
      = fst (egnn_forward1 L (cs ! b) (hs ! b) (ms ! b) (rs ! b))"
    using len slot(1) by (simp add: egnn_forward_nth)
  then show ?thesis
    using egnn_forward1_masked [OF elem L slot(2,3) zero] by simp
qed

lemma egnn_stack_Nil: "egnn_stack [] cs hs ms rs = (cs, hs)"
  by (simp add: egnn_stack_def)

lemma egnn_stack_Cons:
  "egnn_stack (L # Ls) cs hs ms rs =
     egnn_stack Ls (fst (egnn_forward L cs hs ms rs)) (snd (egnn_forward L cs hs ms rs)) ms rs"
  by (simp add: egnn_stack_def split_beta)

lemma egnn_stack_shape_masked:
  assumes "coords_shape B N A cs" and "rows_shape B N hs"
    and ms: "mask_shape B N A ms" and rs: "rows_shape B N rs"
    and "\<forall>L\<in>set Ls. scalar_gate L"
  shows "coords_shape B N A (fst (egnn_stack Ls cs hs ms rs)) \<and>
    (\<forall>b<B. \<forall>n<N. \<forall>a<A. ms ! b ! n ! a = 0 \<longrightarrow>
       fst (egnn_stack Ls cs hs ms rs) ! b ! n ! a = cs ! b ! n ! a)"
  using assms(1,2,5)
proof (induction Ls arbitrary: cs hs)
  case Nil
  then show ?case by (simp add: egnn_stack_Nil)
next
  case (Cons L Ls)
  let ?cs = "fst (egnn_forward L cs hs ms rs)" and ?hs = "snd (egnn_forward L cs hs ms rs)"
  from Cons.prems(3) have L: "scalar_gate L" and Ls: "\<forall>L\<in>set Ls. scalar_gate L" by simp_all
  have sh: "coords_shape B N A ?cs" "rows_shape B N ?hs"
    using egnn_forward_shape [OF Cons.prems(1,2) ms rs L] by simp_all
  from Cons.IH [OF sh Ls]
  have IH: "coords_shape B N A (fst (egnn_stack Ls ?cs ?hs ms rs))"
    "\<And>b n a. b < B \<Longrightarrow> n < N \<Longrightarrow> a < A \<Longrightarrow> ms ! b ! n ! a = 0 \<Longrightarrow>
       fst (egnn_stack Ls ?cs ?hs ms rs) ! b ! n ! a = ?cs ! b ! n ! a"
    by simp_all
  have "fst (egnn_stack (L # Ls) cs hs ms rs) ! b ! n ! a = cs ! b ! n ! a"
    if "b < B" "n < N" "a < A" "ms ! b ! n ! a = 0" for b n a
    using IH(2) [OF that] egnn_forward_masked [OF Cons.prems(1,2) ms rs L that]
    by (simp add: egnn_stack_Cons)
  with IH(1) show ?case by (simp add: egnn_stack_Cons)
qed

lemma ddpm_noise_nth:
  assumes "coords_shape B N A cs" and "coords_shape B N A fs" and "length cum = B"
    and "b < B" "n < N" "a < A"
  shows "ddpm_noise cum cs fs ! b ! n ! a
      = map2 (predicted_noise_elem (cum ! b)) (cs ! b ! n ! a) (fs ! b ! n ! a)"
proof -
  from assms(1,4,5) have c: "length cs = B" "length (cs ! b) = N" "length (cs ! b ! n) = A"
    by (simp_all add: coords_shape_nth residues_shape_nth)
  from assms(2,4,5) have f: "length fs = B" "length (fs ! b) = N" "length (fs ! b ! n) = A"
    by (simp_all add: coords_shape_nth residues_shape_nth)
  show ?thesis
    using c f assms(3-6) by (simp add: ddpm_noise_def)
qed

lemma ddpm_noise_lengths:
  assumes "coords_shape B N A cs" and "coords_shape B N A fs" and "length cum = B"
  shows "length (ddpm_noise cum cs fs) = B"
    and "b < B \<Longrightarrow> length (ddpm_noise cum cs fs ! b) = N"
    and "b < B \<Longrightarrow> n < N \<Longrightarrow> length (ddpm_noise cum cs fs ! b ! n) = A"
proof -
  from assms(1) have c: "length cs = B" "\<And>b. b < B \<Longrightarrow> length (cs ! b) = N"
    "\<And>b n. b < B \<Longrightarrow> n < N \<Longrightarrow> length (cs ! b ! n) = A"
    by (simp_all add: coords_shape_nth residues_shape_nth)
  from assms(2) have f: "length fs = B" "\<And>b. b < B \<Longrightarrow> length (fs ! b) = N"
    "\<And>b n. b < B \<Longrightarrow> n < N \<Longrightarrow> length (fs ! b ! n) = A"
    by (simp_all add: coords_shape_nth residues_shape_nth)
  show "length (ddpm_noise cum cs fs) = B"
    using c(1) f(1) assms(3) by (simp add: ddpm_noise_def)
  show "b < B \<Longrightarrow> length (ddpm_noise cum cs fs ! b) = N"
    using c f assms(3) by (simp add: ddpm_noise_def)
  show "b < B \<Longrightarrow> n < N \<Longrightarrow> length (ddpm_noise cum cs fs ! b ! n) = A"
    using c f assms(3) by (simp add: ddpm_noise_def)
qed

lemma apply_mask_nth:
  assumes "length xs = B" and "length (xs ! b) = N" and "length (xs ! b ! n) = A"
    and "mask_shape B N A ms" and "b < B" "n < N" "a < A"
  shows "apply_mask xs ms ! b ! n ! a = map (\<lambda>x. x * ms ! b ! n ! a) (xs ! b ! n ! a)"
proof -
  from assms(4-6) have "length ms = B" "length (ms ! b) = N" "length (ms ! b ! n) = A"
    by (simp_all add: mask_shape_nth rows_shape_nth)
  with assms show ?thesis by (simp add: apply_mask_def)
qed

lemma forward_masked_zero:
  assumes cs: "coords_shape B N A cs" and ms: "mask_shape B N A ms" and rs: "rows_shape B N rs"
    and layers: "\<forall>L\<in>set (egnn_layers m). scalar_gate L"
    and ts: "length timesteps = B" "\<forall>t\<in>set timesteps. 0 \<le> t \<and> t < int (diffusion_steps m)"
    and sched: "alpha_cumprod m \<noteq> []"
    and slot: "b < B" "n < N" "a < A" and zero: "ms ! b ! n ! a = 0"
  shows "\<exists>out. forward m cs rs timesteps ms = Inr out \<and> out ! b ! n ! a = [0, 0, 0]"
proof -
  let ?hs = "initial_node_features m rs (normalized_times m timesteps)"
  let ?fs = "fst (egnn_stack (egnn_layers m) cs ?hs ms rs)"
  let ?cum = "map (\<lambda>t. alpha_cumprod m ! 0) timesteps"
  let ?pn = "ddpm_noise ?cum cs ?fs"
  have hs: "rows_shape B N ?hs"
    using rs ts(1)
    by (simp add: initial_node_features_def residue_embedding_def time_embedding_def
        normalized_times_def rows_shape_nth)
  have fs: "coords_shape B N A ?fs"
    using egnn_stack_shape_masked [OF cs hs ms rs layers] by simp
  have cum: "length ?cum = B" using ts(1) by simp
  have fwd: "forward m cs rs timesteps ms = Inr (apply_mask ?pn ms)"
    using ts(2) sched by (rule forward_valid)
  have "apply_mask ?pn ms ! b ! n ! a = map (\<lambda>x. x * ms ! b ! n ! a) (?pn ! b ! n ! a)"
    using ddpm_noise_lengths [OF cs fs cum] ms slot by (intro apply_mask_nth) simp_all
  also have "\<dots> = map (\<lambda>x. 0) (?pn ! b ! n ! a)"
    using zero by simp
  also have "?pn ! b ! n ! a
      = map2 (predicted_noise_elem (?cum ! b)) (cs ! b ! n ! a) (?fs ! b ! n ! a)"
    using cs fs cum slot by (rule ddpm_noise_nth)
  also have "map (\<lambda>x. 0::real) \<dots> = replicate 3 0"
  proof -
    from cs slot have "length (cs ! b ! n ! a) = 3"
      by (simp add: coords_shape_nth residues_shape_nth)
    moreover from fs slot have "length (?fs ! b ! n ! a) = 3"
      by (simp add: coords_shape_nth residues_shape_nth)
    ultimately show ?thesis by (simp add: map_replicate_const)
  qed
  finally have "apply_mask ?pn ms ! b ! n ! a = [0, 0, 0]"
    by (simp add: numeral_3_eq_3)
  with fwd show ?thesis by simp
qed

text \<open>
  C4. At an atom slot whose mask is 0, a layer returns the coordinates it was given, and
  the model returns the zero vector. The inputs have the shapes of the docstrings, the
  gate of every layer is the scalar the constructor builds, the timesteps are valid and the
  schedule has its \<open>diffusion_steps\<close> values, all in \<open>(0, 1)\<close>.
\<close>

theorem masked_atoms_untouched:
  assumes "coords_shape B N A cs" and "mask_shape B N A ms"
    and "rows_shape B N rs" and "rows_shape B N hs"
    and "scalar_gate L" and "\<forall>L\<in>set (egnn_layers m). scalar_gate L"
    and "length timesteps = B"
    and "\<forall>t\<in>set timesteps. 0 \<le> t \<and> t < int (diffusion_steps m)"
    and "length (alpha_cumprod m) = diffusion_steps m"
    and "\<forall>x\<in>set (alpha_cumprod m). 0 < x \<and> x < 1"
    and "b < B" and "n < N" and "a < A" and "ms ! b ! n ! a = 0"
  shows "fst (egnn_forward L cs hs ms rs) ! b ! n ! a = cs ! b ! n ! a \<and>
    (\<exists>out. forward m cs rs timesteps ms = Inr out \<and> out ! b ! n ! a = [0, 0, 0])"
proof -
  from assms(7,11) have "timesteps ! b \<in> set timesteps" by simp
  with assms(8) have "0 < diffusion_steps m" by fastforce
  with assms(9) have sched: "alpha_cumprod m \<noteq> []" by auto
  have "fst (egnn_forward L cs hs ms rs) ! b ! n ! a = cs ! b ! n ! a"
    using assms(1,4,2,3,5,11-14) by (rule egnn_forward_masked)
  moreover have "\<exists>out. forward m cs rs timesteps ms = Inr out \<and> out ! b ! n ! a = [0, 0, 0]"
    using assms(1,2,3,6,7,8) sched assms(11-14) by (rule forward_masked_zero)
  ultimately show ?thesis by blast
qed

lemma scalar_gate_x_gate_layer: "scalar_gate x_gate_layer"
  by (simp add: scalar_gate_def x_gate_layer_def)

theorem masked_atoms_untouched_witness:
  "coords_shape 1 2 2 [[[[1, 0, 0], [2, 1, 0]], [[0, 0, 0], [0, 1, 0]]]] \<and>
   mask_shape 1 2 2 [[[1, 0], [1, 1]]] \<and>
   rows_shape 1 2 [[0 :: int, 1]] \<and>
   rows_shape 1 2 [[[0 :: real, 0], [0, 0]]] \<and>
   list_all scalar_gate (egnn_layers (two_step_model\<lparr>num_atoms := 2, egnn_layers := [x_gate_layer]\<rparr>)) \<and>
   list_all (\<lambda>t. 0 \<le> t \<and> t < int (diffusion_steps (two_step_model\<lparr>num_atoms := 2, egnn_layers := [x_gate_layer]\<rparr>)))
     [1] \<and>
   alpha_cumprod (two_step_model\<lparr>num_atoms := 2, egnn_layers := [x_gate_layer]\<rparr>) = [16 / 25, 9 / 25] \<and>
   [[[1 :: real, 0], [1, 1]]] ! 0 ! 0 ! 1 = 0 \<and>
   fst (egnn_forward x_gate_layer [[[[1, 0, 0], [2, 1, 0]], [[0, 0, 0], [0, 1, 0]]]]
          [[[0, 0], [0, 0]]] [[[1, 0], [1, 1]]] [[0, 1]]) ! 0 ! 0 ! 1 = [2, 1, 0] \<and>
   (\<exists>out. forward (two_step_model\<lparr>num_atoms := 2, egnn_layers := [x_gate_layer]\<rparr>)
            [[[[1, 0, 0], [2, 1, 0]], [[0, 0, 0], [0, 1, 0]]]] [[0, 1]] [1] [[[1, 0], [1, 1]]]
          = Inr out \<and> out ! 0 ! 0 ! 1 = [0, 0, 0])"
proof -
  let ?m = "two_step_model\<lparr>num_atoms := 2, egnn_layers := [x_gate_layer]\<rparr>"
  let ?cs = "[[[[1, 0, 0], [2, 1, 0]], [[0, 0, 0], [0, 1, 0]]]] :: coords"
  let ?ms = "[[[1, 0], [1, 1]]] :: mask"
  have 1: "coords_shape 1 2 2 ?cs"
    by (simp add: coords_shape_def residues_shape_def)
  have 2: "mask_shape 1 2 2 ?ms"
    by (simp add: mask_shape_def rows_shape_def)
  have 3: "rows_shape 1 2 [[0 :: int, 1]]" by (simp add: rows_shape_def)
  have 4: "rows_shape 1 2 [[[0 :: real, 0], [0, 0]]]" by (simp add: rows_shape_def)
  have 5: "\<forall>L\<in>set (egnn_layers ?m). scalar_gate L"
    by (simp add: scalar_gate_x_gate_layer)
  have 6: "length [1 :: int] = 1" by simp
  have 7: "\<forall>t\<in>set [1 :: int]. 0 \<le> t \<and> t < int (diffusion_steps ?m)"
    by (simp add: two_step_model_fields)
  have 8: "length (alpha_cumprod ?m) = diffusion_steps ?m"
    by (simp add: two_step_model_fields)
  have 9: "\<forall>x\<in>set (alpha_cumprod ?m). 0 < x \<and> x < 1"
    by (simp add: two_step_model_fields)
  have 10: "(0 :: nat) < 1" "(0 :: nat) < 2" "(1 :: nat) < 2" by simp_all
  have 11: "?ms ! 0 ! 0 ! 1 = 0" by simp
  from masked_atoms_untouched [OF 1 2 3 4 scalar_gate_x_gate_layer 5 6 7 8 9 10 11]
  show ?thesis
    using 1 2 3 4 by (simp add: scalar_gate_x_gate_layer two_step_model_fields)
qed

section \<open>The layers: translations and rotations\<close>

lemma vsub_translated:
  "length x = length t \<Longrightarrow> length y = length t \<Longrightarrow> vsub (vadd x t) (vadd y t) = vsub x y"
  by (simp add: vsub_def vadd_def list_eq_iff_nth_eq)

lemma vadd_swap: "vadd (vadd a t) s = vadd (vadd a s) t"
  by (simp add: vadd_def list_eq_iff_nth_eq)

lemma map2_translated:
  assumes "\<forall>v\<in>set ci. length v = length t" and "\<forall>v\<in>set cj. length v = length t"
  shows "map2 vsub (map (\<lambda>v. vadd v t) ci) (map (\<lambda>v. vadd v t) cj) = map2 vsub ci cj"
proof -
  have "map2 vsub (map (\<lambda>v. vadd v t) ci) (map (\<lambda>v. vadd v t) cj)
      = map (\<lambda>(x, y). vsub (vadd x t) (vadd y t)) (zip ci cj)"
    by (simp add: zip_map_map split_beta)
  also have "\<dots> = map (\<lambda>(x, y). vsub x y) (zip ci cj)"
  proof (rule map_cong [OF refl])
    fix p assume "p \<in> set (zip ci cj)"
    then have "fst p \<in> set ci" "snd p \<in> set cj"
      by (metis prod.collapse set_zip_leftD, metis prod.collapse set_zip_rightD)
    with assms have "length (fst p) = length t" "length (snd p) = length t" by simp_all
    then show "(case p of (x, y) \<Rightarrow> vsub (vadd x t) (vadd y t)) = (case p of (x, y) \<Rightarrow> vsub x y)"
      by (simp add: split_beta vsub_translated)
  qed
  finally show ?thesis .
qed

lemma directional_vectors_translated:
  assumes "residues_shape N A c" and "length t = 3"
  shows "directional_vectors (map (map (\<lambda>v. vadd v t)) c) = directional_vectors c"
proof -
  have atoms: "\<forall>v\<in>set cn. length v = length t" if "cn \<in> set c" for cn
    using assms that by (auto simp: residues_shape_def list_all_iff)
  have "directional_vectors (map (map (\<lambda>v. vadd v t)) c)
      = map (\<lambda>ci. map (\<lambda>cj. vmean (map2 vsub (map (\<lambda>v. vadd v t) ci) (map (\<lambda>v. vadd v t) cj))) c) c"
    by (simp add: directional_vectors_def o_def)
  also have "\<dots> = map (\<lambda>ci. map (\<lambda>cj. vmean (map2 vsub ci cj)) c) c"
    using atoms by (intro map_cong refl) (simp add: map2_translated)
  finally show ?thesis by (simp add: directional_vectors_def)
qed

lemma updated_coords_translated:
  "updated_coords (map (map (\<lambda>v. vadd v t)) c) u m
     = map (map (\<lambda>v. vadd v t)) (updated_coords c u m)"
  apply (simp add: updated_coords_def zip_map1 split_beta o_def)
  apply (intro ballI vadd_swap)
  done

lemma egnn_forward1_translated:
  assumes "residues_shape N A c" and "length t = 3"
  shows "egnn_forward1 L (map (map (\<lambda>v. vadd v t)) c) h m r
     = (map (map (\<lambda>v. vadd v t)) (fst (egnn_forward1 L c h m r)), snd (egnn_forward1 L c h m r))"
proof -
  note dv = directional_vectors_translated [OF assms]
  have em: "edge_messages L (map (map (\<lambda>v. vadd v t)) c) h r = edge_messages L c h r"
    by (simp add: edge_messages_def dv)
  have cu: "coord_updates L (map (map (\<lambda>v. vadd v t)) c) h r = coord_updates L c h r"
    by (simp add: coord_updates_def em dv)
  have nf: "updated_node_features L (map (map (\<lambda>v. vadd v t)) c) h r = updated_node_features L c h r"
    by (simp add: updated_node_features_def em)
  show ?thesis
    by (simp add: egnn_forward1_def cu nf updated_coords_translated)
qed

text \<open>
  Translation: a layer run on coordinates all moved by \<open>t\<close> returns the coordinates
  of the unmoved run moved by \<open>t\<close>, and the same node features: the directional
  vectors, hence the messages and the coordinate updates, do not change.
\<close>

lemma egnn_forward_translated:
  assumes "coords_shape B N A cs" and "length t = 3"
  shows "egnn_forward L (translate_coords t cs) hs ms rs
     = (translate_coords t (fst (egnn_forward L cs hs ms rs)), snd (egnn_forward L cs hs ms rs))"
proof -
  have elem: "residues_shape N A c" if "c \<in> set cs" for c
    using assms(1) that by (auto simp: coords_shape_def list_all_iff)
  have "map (\<lambda>(c, h, m, r). egnn_forward1 L c h m r)
          (zip (map (map (map (\<lambda>v. vadd v t))) cs) (zip hs (zip ms rs)))
      = map (\<lambda>(c, h, m, r). (map (map (\<lambda>v. vadd v t)) (fst (egnn_forward1 L c h m r)),
                               snd (egnn_forward1 L c h m r)))
          (zip cs (zip hs (zip ms rs)))"
    unfolding zip_map1 map_map
  proof (rule map_cong [OF refl])
    fix p assume "p \<in> set (zip cs (zip hs (zip ms rs)))"
    then have "fst p \<in> set cs" by (metis prod.collapse set_zip_leftD)
    then have "residues_shape N A (fst p)" by (rule elem)
    from egnn_forward1_translated [OF this assms(2)]
    show "((\<lambda>(c, h, m, r). egnn_forward1 L c h m r) \<circ> (\<lambda>(x, y). (map (map (\<lambda>v. vadd v t)) x, y))) p
        = (case p of (c, h, m, r) \<Rightarrow>
             (map (map (\<lambda>v. vadd v t)) (fst (egnn_forward1 L c h m r)),
              snd (egnn_forward1 L c h m r)))"
      by (simp add: split_beta)
  qed
  then show ?thesis
    by (simp add: egnn_forward_def translate_coords_def Let_def o_def split_beta)
qed

lemma silu_zero: "silu 0 = 0"
  by (simp add: silu_def)

lemma silu_pos: "0 < x \<Longrightarrow> 0 < silu x"
proof -
  assume "0 < x"
  moreover have "0 < 1 + exp (- x)" by (simp add: add_pos_pos)
  ultimately show "0 < silu x" by (simp add: silu_def)
qed

lemma x_gate_edge_mlp:
  "edge_mlp x_gate_layer [hi0, hi1, hj0, hj1, e1, e2, dx, dy, dz] = [silu (silu dx), 0]"
  by (simp add: edge_mlp_def x_gate_layer_def linear_apply_def dot_def silu_zero)

lemma x_gate_coord_mlp: "coord_mlp x_gate_layer [v, 0] = [silu v]"
  by (simp add: coord_mlp_def x_gate_layer_def linear_apply_def dot_def silu_zero)

lemma x_gate_rel_enc:
  "rel_residue_enc x_gate_layer [0, 1] =
     [[[sin 0, cos 0], [sin (- pi), cos (- pi)]], [[sin pi, cos pi], [sin 0, cos 0]]]"
  by (simp add: rel_residue_enc_def pos_embedding_def inv_freq_def x_gate_layer_def)

lemma dv_x: "directional_vectors [[[1, 0, 0]], [[0, 0, 0]]]
    = [[[0, 0, 0], [1, 0, 0]], [[- 1, 0, 0], [0, 0, 0]]]"
  by (simp add: directional_vectors_def vmean_def vsum_def vadd_def vsub_def numeral_3_eq_3)

lemma dv_y: "directional_vectors [[[0, 1, 0]], [[0, 0, 0]]]
    = [[[0, 0, 0], [0, 1, 0]], [[0, - 1, 0], [0, 0, 0]]]"
  by (simp add: directional_vectors_def vmean_def vsum_def vadd_def vsub_def numeral_3_eq_3)

lemma x_gate_updates_x:
  "coord_updates x_gate_layer [[[1, 0, 0]], [[0, 0, 0]]] [[0, 0], [0, 0]] [0, 1]
     = [[silu (silu (silu 1)), 0, 0], [- silu (silu (silu (- 1))), 0, 0]]"
  by (simp add: coord_updates_def edge_messages_def dv_x x_gate_rel_enc x_gate_edge_mlp
      x_gate_coord_mlp bmul_def vscale_def vsum_def vadd_def silu_zero numeral_3_eq_3)

lemma x_gate_updates_y:
  "coord_updates x_gate_layer [[[0, 1, 0]], [[0, 0, 0]]] [[0, 0], [0, 0]] [0, 1]
     = [[0, 0, 0], [0, 0, 0]]"
  by (simp add: coord_updates_def edge_messages_def dv_y x_gate_rel_enc x_gate_edge_mlp
      x_gate_coord_mlp bmul_def vscale_def vsum_def vadd_def silu_zero numeral_3_eq_3)

lemma rotate_x: "rotate_coords quarter_turn [[[[1, 0, 0]], [[0, 0, 0]]]] = [[[[0, 1, 0]], [[0, 0, 0]]]]"
  by (simp add: rotate_coords_def mat_vec_def quarter_turn_def dot_def)

lemma x_gate_forward_x:
  "fst (egnn_forward x_gate_layer [[[[1, 0, 0]], [[0, 0, 0]]]] [[[0, 0], [0, 0]]] [[[1], [1]]] [[0, 1]])
     = [[[[1 + silu (silu (silu 1)), 0, 0]], [[- silu (silu (silu (- 1))), 0, 0]]]]"
  by (simp add: egnn_forward_def egnn_forward1_def updated_coords_def x_gate_updates_x
      vadd_def vscale_def)

lemma x_gate_forward_y:
  "fst (egnn_forward x_gate_layer [[[[0, 1, 0]], [[0, 0, 0]]]] [[[0, 0], [0, 0]]] [[[1], [1]]] [[0, 1]])
     = [[[[0, 1, 0]], [[0, 0, 0]]]]"
  by (simp add: egnn_forward_def egnn_forward1_def updated_coords_def x_gate_updates_y
      vadd_def vscale_def)

text \<open>
  C3. The claim: rotating the input coordinates rotates the output coordinates. The edge
  network reads the components of the directional vector, so its scalar gate changes with
  the rotation. For the layer \<open>x_gate_layer\<close>, two residues of one atom at
  \<open>(1, 0, 0)\<close> and the origin, and the quarter turn about the third axis: the layer
  leaves the rotated coordinates where they are (every gate is \<open>silu (silu (silu 0)) = 0\<close>),
  while it moves the unrotated ones by \<open>silu (silu (silu 1)) > 0\<close> along the first
  axis; the run on the rotated input is not the rotation of the run on the input.
\<close>

theorem rotation_changes_gate:
  "fst (egnn_forward x_gate_layer (rotate_coords quarter_turn [[[[1, 0, 0]], [[0, 0, 0]]]])
         [[[0, 0], [0, 0]]] [[[1], [1]]] [[0, 1]])
     = rotate_coords quarter_turn [[[[1, 0, 0]], [[0, 0, 0]]]] \<and>
   fst (egnn_forward x_gate_layer [[[[1, 0, 0]], [[0, 0, 0]]]] [[[0, 0], [0, 0]]] [[[1], [1]]] [[0, 1]])
     = [[[[1 + silu (silu (silu 1)), 0, 0]], [[- silu (silu (silu (- 1))), 0, 0]]]] \<and>
   0 < silu (silu (silu 1)) \<and>
   fst (egnn_forward x_gate_layer (rotate_coords quarter_turn [[[[1, 0, 0]], [[0, 0, 0]]]])
         [[[0, 0], [0, 0]]] [[[1], [1]]] [[0, 1]])
     \<noteq> rotate_coords quarter_turn
         (fst (egnn_forward x_gate_layer [[[[1, 0, 0]], [[0, 0, 0]]]] [[[0, 0], [0, 0]]] [[[1], [1]]]
            [[0, 1]]))"
proof -
  have pos: "0 < silu (silu (silu 1))"
    by (intro silu_pos) simp
  have "rotate_coords quarter_turn
      [[[[1 + silu (silu (silu 1)), 0, 0]], [[- silu (silu (silu (- 1))), 0, 0]]]]
      = [[[[0, 1 + silu (silu (silu 1)), 0]], [[0, - silu (silu (silu (- 1))), 0]]]]"
    by (simp add: rotate_coords_def mat_vec_def quarter_turn_def dot_def)
  moreover have "[[[[0, 1, 0]], [[0, 0, 0]]]]
      \<noteq> [[[[0, 1 + silu (silu (silu 1)), 0]], [[0, - silu (silu (silu (- 1))), 0]]]]"
    using pos by simp
  ultimately show ?thesis
    using pos by (simp add: rotate_x x_gate_forward_x x_gate_forward_y)
qed

section \<open>The sampler\<close>

lemma map2_left_id:
  "length xs = length ys \<Longrightarrow> (\<And>x y. (x, y) \<in> set (zip xs ys) \<Longrightarrow> f x y = x) \<Longrightarrow> map2 f xs ys = xs"
  by (induction xs ys rule: list_induct2) auto

lemma remask_vec: "map (\<lambda>x. x * m + (1 - m) * x) v = (v :: real list)"
proof -
  have "(\<lambda>x. x * m + (1 - m) * x) = (\<lambda>x::real. x)"
    by (rule ext) (simp add: algebra_simps)
  then show ?thesis by simp
qed

text \<open>
  C8. The re-masking line of the sampling loop returns its coordinates unchanged, whatever
  the mask holds (0, 1 or any other number): it preserves nothing and regenerates nothing.
\<close>

theorem remask_identity:
  assumes "mask_fits cs ms"
  shows "remask cs ms = cs"
proof -
  have atoms: "map2 (\<lambda>v m. map (\<lambda>x. x * m + (1 - m) * x) v) cn mn = cn"
    if "length cn = length mn" for cn :: "vec list" and mn
    using that by (rule map2_left_id) (simp add: remask_vec)
  have residues: "map2 (map2 (\<lambda>v m. map (\<lambda>x. x * m + (1 - m) * x) v)) cb mb = cb"
    if "list_all2 (\<lambda>cn mn. length cn = length mn) cb mb" for cb :: "vec list list" and mb
    using that by (induction rule: list_all2_induct) (simp_all add: atoms)
  from assms show ?thesis
    unfolding mask_fits_def remask_def
    by (induction rule: list_all2_induct) (simp_all add: residues)
qed

theorem remask_identity_witness:
  "mask_fits [[[[1, 2, 3], [4, 5, 6]]]] [[[1, 0]]] \<and>
   remask [[[[1, 2, 3], [4, 5, 6]]]] [[[1, 0]]] = [[[[1, 2, 3], [4, 5, 6]]]]"
  using remask_identity [of "[[[[1, 2, 3], [4, 5, 6]]]]" "[[[1, 0]]]"]
  by (simp add: mask_fits_def)

section \<open>The forward pass writes no tensor of its caller\<close>

lemma alloc_simps:
  "fst (alloc s) = next_ref s"
  "env (snd (alloc s)) = env s"
  "next_ref (snd (alloc s)) = Suc (next_ref s)"
  "q < next_ref s \<Longrightarrow> heap (snd (alloc s)) q = heap s q"
  by (simp_all add: alloc_def)

lemma eval_frame:
  "eval e s = Some (r, s') \<Longrightarrow>
     env s' = env s \<and> next_ref s \<le> next_ref s' \<and> (\<forall>q<next_ref s. heap s' q = heap s q)"
  "eval_list es s = Some s' \<Longrightarrow>
     env s' = env s \<and> next_ref s \<le> next_ref s' \<and> (\<forall>q<next_ref s. heap s' q = heap s q)"
proof (induction e s and es s arbitrary: r s' and s' rule: eval_eval_list.induct)
  case (1 x s)
  then show ?case by (auto split: option.splits)
next
  case (2 f es s)
  from "2.prems" obtain s1 where s1: "eval_list es s = Some s1" and a: "alloc s1 = (r, s')"
    by (auto split: option.splits)
  from "2.IH" [OF s1] have "env s1 = env s" "next_ref s \<le> next_ref s1"
    "\<forall>q<next_ref s. heap s1 q = heap s q" by simp_all
  moreover from a have "s' = snd (alloc s1)" by simp
  ultimately show ?case by (simp add: alloc_simps)
next
  case (3 f e s)
  then show ?case by simp
next
  case (4 s)
  then show ?case by simp
next
  case (5 e es s)
  from "5.prems" obtain r1 s1 where s1: "eval e s = Some (r1, s1)" and s2: "eval_list es s1 = Some s'"
    by (auto split: option.splits)
  from "5.IH"(1) [OF s1] "5.IH"(2) [OF s1 _ s2] show ?case by auto
qed


lemma eval_defined:
  "names e \<subseteq> dom (env s) \<Longrightarrow> \<exists>r s'. eval e s = Some (r, s')"
  "names_list es \<subseteq> dom (env s) \<Longrightarrow> \<exists>s'. eval_list es s = Some s'"
proof (induction e s and es s rule: eval_eval_list.induct)
  case (1 x s)
  then show ?case by auto
next
  case (2 f es s)
  then obtain s1 where "eval_list es s = Some s1" by auto
  then show ?case by simp
next
  case (3 f e s)
  then show ?case by simp
next
  case (4 s)
  then show ?case by simp
next
  case (5 e es s)
  from "5.prems" have "names e \<subseteq> dom (env s)" by simp
  from "5.IH"(1) [OF this] obtain r1 s1 where s1: "eval e s = Some (r1, s1)" by blast
  from eval_frame(1) [OF s1] have "env s1 = env s" by simp
  with "5.prems" have "names_list es \<subseteq> dom (env s1)" by simp
  from "5.IH"(2) [OF s1 _ this] obtain s2 where "eval_list es s1 = Some s2" by blast
  with s1 show ?case by simp
qed

lemma eval_made:
  assumes "eval e s = Some (r, s')" and "made F e" and "n0 \<le> next_ref s"
    and "\<forall>x\<in>F. \<exists>q. env s x = Some q \<and> n0 \<le> q"
  shows "n0 \<le> r"
  using assms
proof (induction e)
  case (Var x)
  then show ?case by (auto split: option.splits)
next
  case (New f es)
  from New.prems(1) obtain s1 where s1: "eval_list es s = Some s1" and a: "alloc s1 = (r, s')"
    by (auto split: option.splits)
  from eval_frame(2) [OF s1] have "next_ref s \<le> next_ref s1" by simp
  moreover from a have "r = next_ref s1" by (simp add: alloc_def)
  ultimately show ?case using New.prems(3) by simp
next
  case (View f e)
  then show ?case by simp
qed

lemma exec_frame:
  assumes "exec c s = Some s'" and "is_assign c"
  shows "next_ref s \<le> next_ref s' \<and> (\<forall>q<next_ref s. heap s' q = heap s q)"
proof (cases c)
  case (Assign x e)
  with assms(1) obtain r s1 where e: "eval e s = Some (r, s1)"
    and s': "s' = s1\<lparr>env := (env s1)(x \<mapsto> r)\<rparr>"
    by (auto split: option.splits)
  from eval_frame(1) [OF e] s' show ?thesis by simp
next
  case (InPlace t f es)
  with assms(2) show ?thesis by simp
qed

lemma run_frame:
  "list_all is_assign p \<Longrightarrow> run p s = Some s' \<Longrightarrow>
     next_ref s \<le> next_ref s' \<and> (\<forall>q<next_ref s. heap s' q = heap s q)"
proof (induction p arbitrary: s)
  case Nil
  then show ?case by simp
next
  case (Cons c p)
  from Cons.prems obtain s1 where c: "exec c s = Some s1" and p: "run p s1 = Some s'"
    by (auto split: option.splits)
  from Cons.prems(1) have "is_assign c" "list_all is_assign p" by simp_all
  from exec_frame [OF c this(1)] Cons.IH [OF this(2) p] show ?case by auto
qed

lemma run_defined:
  "uses_ok D p \<Longrightarrow> D \<subseteq> dom (env s) \<Longrightarrow> list_all is_assign p \<Longrightarrow> \<exists>s'. run p s = Some s'"
proof (induction p arbitrary: D s)
  case Nil
  then show ?case by simp
next
  case (Cons c p)
  show ?case
  proof (cases c)
    case (Assign x e)
    with Cons.prems have n: "names e \<subseteq> dom (env s)" and u: "uses_ok (insert x D) p"
      and a: "list_all is_assign p" by auto
    from eval_defined(1) [OF n] obtain r s1 where e: "eval e s = Some (r, s1)" by blast
    let ?s2 = "s1\<lparr>env := (env s1)(x \<mapsto> r)\<rparr>"
    from eval_frame(1) [OF e] have "env s1 = env s" by simp
    with Cons.prems(2) have "insert x D \<subseteq> dom (env ?s2)" by auto
    from Cons.IH [OF u this a] obtain s' where "run p ?s2 = Some s'" by blast
    with e Assign show ?thesis by simp
  next
    case (InPlace t f es)
    with Cons.prems(3) show ?thesis by simp
  qed
qed

lemma write_in_place_env:
  "write_in_place r s = Some s' \<Longrightarrow> env s' = env s \<and> next_ref s' = next_ref s"
  by (auto simp: write_in_place_def split: option.splits)

lemma run_made:
  "run p s = Some s' \<Longrightarrow> n0 \<le> next_ref s \<Longrightarrow>
   \<forall>x\<in>F. \<exists>q. env s x = Some q \<and> n0 \<le> q \<Longrightarrow>
   \<forall>x\<in>made_after F p. \<exists>q. env s' x = Some q \<and> n0 \<le> q"
proof (induction p arbitrary: s F)
  case Nil
  then show ?case by simp
next
  case (Cons c p)
  from Cons.prems(1) obtain s1 where c: "exec c s = Some s1" and p: "run p s1 = Some s'"
    by (auto split: option.splits)
  show ?case
  proof (cases c)
    case (Assign x e)
    with c obtain r s0 where e: "eval e s = Some (r, s0)"
      and s1: "s1 = s0\<lparr>env := (env s0)(x \<mapsto> r)\<rparr>"
      by (auto split: option.splits)
    from eval_frame(1) [OF e] have fr: "env s0 = env s" "next_ref s \<le> next_ref s0" by simp_all
    let ?F = "if made F e then insert x F else F - {x}"
    have n: "n0 \<le> next_ref s1" using fr Cons.prems(2) s1 by simp
    have "\<forall>y\<in>?F. \<exists>q. env s1 y = Some q \<and> n0 \<le> q"
    proof (cases "made F e")
      case True
      from eval_made [OF e True Cons.prems(2) Cons.prems(3)] have "n0 \<le> r" .
      with True Cons.prems(3) fr s1 show ?thesis by auto
    next
      case False
      with Cons.prems(3) fr s1 show ?thesis by auto
    qed
    from Cons.IH [OF p n this] Assign show ?thesis by simp
  next
    case (InPlace t f es)
    with c obtain sa r sb where a: "eval_list es s = Some sa" and b: "eval t sa = Some (r, sb)"
      and w: "write_in_place r sb = Some s1"
      by (auto split: option.splits)
    from eval_frame(2) [OF a] eval_frame(1) [OF b] write_in_place_env [OF w]
    have "env s1 = env s" "next_ref s \<le> next_ref s1" by simp_all
    with Cons.prems have "n0 \<le> next_ref s1" "\<forall>x\<in>F. \<exists>q. env s1 x = Some q \<and> n0 \<le> q" by simp_all
    from Cons.IH [OF p this] InPlace show ?thesis by simp
  qed
qed

lemma uses_ok_mono:
  "uses_ok D p \<Longrightarrow> D \<subseteq> D' \<Longrightarrow> uses_ok D' p"
proof (induction p arbitrary: D D')
  case Nil
  then show ?case by simp
next
  case (Cons c p)
  show ?case
  proof (cases c)
    case (Assign x e)
    with Cons.prems have "names e \<subseteq> D'" "uses_ok (insert x D) p" "insert x D \<subseteq> insert x D'"
      by auto
    with Cons.IH Assign show ?thesis by auto
  next
    case (InPlace t f es)
    with Cons.prems Cons.IH show ?thesis by auto
  qed
qed

lemma uses_ok_append:
  "uses_ok D p \<Longrightarrow> uses_ok (D \<union> defs p) q \<Longrightarrow> uses_ok D (p @ q)"
proof (induction p arbitrary: D)
  case Nil
  then show ?case by simp
next
  case (Cons c p)
  show ?case
  proof (cases c)
    case (Assign x e)
    with Cons.prems have "uses_ok (insert x D) p" "uses_ok (insert x D \<union> defs p) q" "names e \<subseteq> D"
      by simp_all
    with Cons.IH Assign show ?thesis by simp
  next
    case (InPlace t f es)
    with Cons.prems Cons.IH show ?thesis by simp
  qed
qed

lemma uses_ok_loop:
  "uses_ok D c \<Longrightarrow> uses_ok D (concat (replicate k c))"
proof (induction k)
  case 0
  then show ?case by simp
next
  case (Suc k)
  then have "uses_ok D c" "uses_ok (D \<union> defs c) (concat (replicate k c))"
    using uses_ok_mono [of D "concat (replicate k c)" "D \<union> defs c"] by auto
  then show ?case using uses_ok_append by simp
qed

lemma uses_ok_take:
  "uses_ok D p \<Longrightarrow> uses_ok D (take j p)"
proof (induction p arbitrary: D j)
  case Nil
  then show ?case by simp
next
  case (Cons c p)
  then show ?case by (cases j; cases c) auto
qed

lemma made_after_append:
  "made_after F (p @ q) = made_after (made_after F p) q"
  by (induction F p rule: made_after.induct) simp_all

lemma made_after_loop:
  assumes "\<And>F. x \<in> made_after F c" and "x \<in> F"
  shows "x \<in> made_after F (concat (replicate k c))"
proof (cases k)
  case 0
  with assms(2) show ?thesis by simp
next
  case (Suc j)
  have "concat (replicate (Suc j) c) = concat (replicate j c) @ c"
    by (induction j) simp_all
  with Suc assms(1) show ?thesis by (simp add: made_after_append)
qed

lemma names_conv: "names (conv b f e) = names e"
  by (simp add: conv_def)

lemma made_conv: "made F (conv b f e) = (\<not> b \<or> made F e)"
  by (simp add: conv_def)

lemma defs_append: "defs (p @ q) = defs p \<union> defs q"
  by (induction p rule: defs.induct) simp_all

lemma head_uses_ok: "uses_ok (set caller_names) (forward_head a b c)"
  by (simp add: forward_head_def sinusoidal_call_def caller_names_def names_conv)


lemma head_defs: "set caller_names \<union> defs (forward_head a b c) = head_names"
  by (auto simp: forward_head_def sinusoidal_call_def caller_names_def head_names_def defs_append)

lemma layer_uses_ok: "uses_ok head_names (layer_call c)"
  by (simp add: layer_call_def sinusoidal_call_def caller_names_def head_names_def names_conv)

lemma tail_uses_ok: "uses_ok head_names forward_tail"
  by (simp add: forward_tail_def caller_names_def head_names_def)

lemma body_uses_ok: "uses_ok (set caller_names) (forward_body a b c n)"
proof -
  have "uses_ok head_names (concat (replicate n (layer_call c)))"
    using layer_uses_ok by (rule uses_ok_loop)
  moreover have "uses_ok (head_names \<union> defs (concat (replicate n (layer_call c)))) forward_tail"
    using tail_uses_ok by (rule uses_ok_mono) simp
  ultimately have "uses_ok head_names (concat (replicate n (layer_call c)) @ forward_tail)"
    by (rule uses_ok_append)
  then have "uses_ok (set caller_names \<union> defs (forward_head a b c))
      (concat (replicate n (layer_call c)) @ forward_tail)"
    by (simp add: head_defs)
  with head_uses_ok show ?thesis
    unfolding forward_body_def by (rule uses_ok_append)
qed

lemma prefix_uses_ok:
  "uses_ok (set caller_names) (forward_head a b c @ concat (replicate k (layer_call c)))"
proof -
  have "uses_ok head_names (concat (replicate k (layer_call c)))"
    using layer_uses_ok by (rule uses_ok_loop)
  then have "uses_ok (set caller_names \<union> defs (forward_head a b c))
      (concat (replicate k (layer_call c)))"
    by (simp add: head_defs)
  with head_uses_ok show ?thesis by (rule uses_ok_append)
qed

lemma head_assigns: "list_all is_assign (forward_head a b c)"
  by (simp add: forward_head_def sinusoidal_call_def)

lemma layer_assigns: "list_all is_assign (layer_call c)"
  by (simp add: layer_call_def sinusoidal_call_def)

lemma loop_assigns: "list_all is_assign (concat (replicate k (layer_call c)))"
  using layer_assigns by (induction k) simp_all

lemma body_assigns: "list_all is_assign (forward_body a b c n)"
  by (simp add: forward_body_def head_assigns loop_assigns forward_tail_def)

lemma head_makes_curr_coords: "''curr_coords'' \<in> made_after F (forward_head a b c)"
  by (simp add: forward_head_def sinusoidal_call_def made_after_append)

lemma layer_makes_curr_coords: "''curr_coords'' \<in> made_after F (layer_call c)"
  by (simp add: layer_call_def sinusoidal_call_def made_after_append)

lemma prefix_makes_curr_coords:
  "''curr_coords'' \<in> made_after F (forward_head a b c @ concat (replicate k (layer_call c)))"
  unfolding made_after_append
  by (rule made_after_loop) (rule layer_makes_curr_coords, rule head_makes_curr_coords)

text \<open>
  The store does see a write: an in-place update of \<open>curr_coords\<close>, were it bound to
  the caller's tensor and not to a clone, would change the caller's \<open>coords\<close>.
\<close>

lemma in_place_write_through_alias:
  "\<exists>s'. run [Assign ''curr_coords'' (Var ''coords''),
             InPlace (Var ''curr_coords'') ''add_'' [Var ''atom_mask'']] example_store = Some s' \<and>
        heap s' 0 = Some 1 \<and> heap example_store 0 = Some 0"
  by (simp add: example_store_def write_in_place_def)

text \<open>
  C10. Whatever the dtypes and devices of the arguments and the number of layers, and
  wherever the call stops (\<open>take j\<close>: it raises at line 142 for an index out of
  range), a forward pass runs, and no tensor that exists at its entry is written: not the
  arguments, not the schedule. Before every layer and after the last,
  \<open>curr_coords\<close> is a tensor that the call created (the clone of line 135, then the
  \<open>updated_coords\<close> of a layer), not the \<open>coords\<close> of the caller.
\<close>

theorem forward_leaves_arguments_unchanged:
  assumes "\<forall>x\<in>set caller_names. \<exists>r<next_ref s. env s x = Some r"
  shows "(\<forall>j. \<exists>s'. run (take j (forward_body residues_float times_float same_device num_layers)) s
            = Some s' \<and>
          (\<forall>x\<in>set caller_names. \<exists>r. env s x = Some r \<and> heap s' r = heap s r) \<and>
          (\<forall>r<next_ref s. heap s' r = heap s r)) \<and>
     (\<forall>k\<le>num_layers. \<exists>s' r.
          run (forward_head residues_float times_float same_device
               @ concat (replicate k (layer_call same_device))) s = Some s' \<and>
          env s' ''curr_coords'' = Some r \<and> next_ref s \<le> r)"
proof -
  let ?body = "forward_body residues_float times_float same_device num_layers"
  from assms have dom: "set caller_names \<subseteq> dom (env s)" by auto
  have frame: "\<exists>s'. run (take j ?body) s = Some s' \<and>
      (\<forall>x\<in>set caller_names. \<exists>r. env s x = Some r \<and> heap s' r = heap s r) \<and>
      (\<forall>r<next_ref s. heap s' r = heap s r)" for j
  proof -
    have u: "uses_ok (set caller_names) (take j ?body)"
      using body_uses_ok by (rule uses_ok_take)
    have "set (take j ?body) \<subseteq> set ?body" by (rule set_take_subset)
    with body_assigns [of residues_float times_float same_device num_layers]
    have a: "list_all is_assign (take j ?body)"
      unfolding list_all_iff by blast
    from run_defined [OF u dom a] obtain s' where r: "run (take j ?body) s = Some s'" by blast
    from run_frame [OF a r] have h: "\<forall>r<next_ref s. heap s' r = heap s r" by simp
    with assms have "\<forall>x\<in>set caller_names. \<exists>r. env s x = Some r \<and> heap s' r = heap s r"
      by metis
    with r h show ?thesis by blast
  qed
  have fresh: "\<exists>s' r. run (forward_head residues_float times_float same_device
               @ concat (replicate k (layer_call same_device))) s = Some s' \<and>
          env s' ''curr_coords'' = Some r \<and> next_ref s \<le> r" for k
  proof -
    let ?p = "forward_head residues_float times_float same_device
               @ concat (replicate k (layer_call same_device))"
    have a: "list_all is_assign ?p" by (simp add: head_assigns loop_assigns)
    from run_defined [OF prefix_uses_ok dom a] obtain s' where r: "run ?p s = Some s'" by blast
    have "\<forall>x\<in>made_after {} ?p. \<exists>q. env s' x = Some q \<and> next_ref s \<le> q"
      by (rule run_made [OF r]) simp_all
    with prefix_makes_curr_coords [of "{}" residues_float times_float same_device k] r
    show ?thesis by blast
  qed
  from frame fresh show ?thesis by blast
qed

theorem forward_leaves_arguments_unchanged_witness:
  "env example_store ''coords'' = Some 0 \<and> env example_store ''residue_indices'' = Some 1 \<and>
   env example_store ''times'' = Some 2 \<and> env example_store ''atom_mask'' = Some 3 \<and>
   env example_store ''self.betas'' = Some 4 \<and> env example_store ''self.alphas'' = Some 5 \<and>
   env example_store ''self.alpha_cumprod'' = Some 6 \<and>
   env example_store ''self.alpha_cumprod_prev'' = Some 7 \<and>
   next_ref example_store = 8 \<and>
   (\<exists>s'. run (forward_body False False False 2) example_store = Some s' \<and>
      heap s' 0 = Some 0 \<and> heap s' 1 = Some 0 \<and> heap s' 2 = Some 0 \<and> heap s' 3 = Some 0 \<and>
      heap s' 4 = Some 0 \<and> heap s' 5 = Some 0 \<and> heap s' 6 = Some 0 \<and> heap s' 7 = Some 0) \<and>
   (\<exists>s' r. run (forward_head False False False @ layer_call False @ layer_call False)
        example_store = Some s' \<and> env s' ''curr_coords'' = Some r \<and> 8 \<le> r)"
proof -
  have e: "env example_store ''coords'' = Some 0" "env example_store ''residue_indices'' = Some 1"
    "env example_store ''times'' = Some 2" "env example_store ''atom_mask'' = Some 3"
    "env example_store ''self.betas'' = Some 4" "env example_store ''self.alphas'' = Some 5"
    "env example_store ''self.alpha_cumprod'' = Some 6"
    "env example_store ''self.alpha_cumprod_prev'' = Some 7"
    "next_ref example_store = 8"
    by (simp_all add: example_store_def)
  have h: "\<forall>x\<in>set caller_names. \<exists>r<next_ref example_store. env example_store x = Some r"
    by (simp add: caller_names_def e)
  note th = forward_leaves_arguments_unchanged [OF h, of False False False 2]
  from th have "\<exists>s'. run (take (length (forward_body False False False 2))
        (forward_body False False False 2)) example_store = Some s' \<and>
      (\<forall>r<next_ref example_store. heap s' r = heap example_store r)"
    by blast
  then have a: "\<exists>s'. run (forward_body False False False 2) example_store = Some s' \<and>
      heap s' 0 = Some 0 \<and> heap s' 1 = Some 0 \<and> heap s' 2 = Some 0 \<and> heap s' 3 = Some 0 \<and>
      heap s' 4 = Some 0 \<and> heap s' 5 = Some 0 \<and> heap s' 6 = Some 0 \<and> heap s' 7 = Some 0"
    by (auto simp: example_store_def)
  from th have "\<exists>s' r. run (forward_head False False False
        @ concat (replicate 2 (layer_call False))) example_store = Some s' \<and>
      env s' ''curr_coords'' = Some r \<and> next_ref example_store \<le> r"
    by blast
  then have b: "\<exists>s' r. run (forward_head False False False @ layer_call False @ layer_call False)
        example_store = Some s' \<and> env s' ''curr_coords'' = Some r \<and> 8 \<le> r"
    by (simp add: e numeral_2_eq_2)
  from e a b show ?thesis by blast
qed

end
